theory Spec2Isabelle
  imports Complex_Main
begin

section \<open>Savings-plan engine: the model of src/utils/calculation.ts\<close>

text \<open>
  The engine computes with JavaScript numbers. In the main model they are \<open>real\<close>: every
  operation is exact, and the rounding, the infinities and the NaN of IEEE-754 doubles are
  outside it. Two places deserve a note. The only unguarded division of the source,
  \<open>targetNetNominal / (1 - effectiveTaxRate)\<close>, yields an infinity or NaN in the source
  when the effective tax rate is exactly 1, and HOL's \<open>x / 0 = 0\<close> here. \<open>Math.pow\<close> with a
  negative base and the exponent \<open>1/12\<close> is NaN in the source (an annual rate below
  \<open>-100\<close>), and \<open>powr\<close> is some non-negative real here. Month offsets and month indices
  are integers (\<open>int\<close>), negative ones included.

  Three further models stand beside the main one, each for what the main one leaves out and
  a statement depends on: the functions with an \<open>E\<close> carry the exception that date
  formatting raises, those with a \<open>J\<close> compute on numbers with NaN and the infinities, and
  those with an \<open>R\<close> round the result of every operator.
\<close>

subsection \<open>Data model (the interfaces of the types module)\<close>

record financialParams =
  startDate :: string
  annualReturn :: real
  annualInflation :: real
  capitalGainsTax :: real
  initialCapital :: real

record savingsEvent =
  eventId :: string
  name :: string
  monthOffset :: int
  targetAmount :: real

text \<open>
  Dates only label the month records. \<open>new Date(s)\<close> and \<open>addMonths\<close> are kept as
  constructors, and the \<open>date\<close> field of a month record holds the date that the source
  hands to \<open>formatDate\<close>. Parsing and rendering are the platform's
  (\<open>Intl.DateTimeFormat\<close>, which rejects an invalid date with a \<open>RangeError\<close>) and are
  not modelled: a start date is taken to be a valid date.
\<close>

datatype dateExpr = NewDate string | AddMonths dateExpr int

definition addMonths :: "dateExpr \<Rightarrow> int \<Rightarrow> dateExpr" where
  "addMonths d months = AddMonths d months"

record simulationMonth =
  monthIndex :: int
  date :: dateExpr
  deposit :: real
  balanceStart :: real
  balanceEnd :: real
  costBasis :: real
  eventOccurred :: "savingsEvent option"
  withdrawalGross :: "real option"
  withdrawalNet :: "real option"
  taxPaid :: "real option"
  preWithdrawalBalance :: "real option"
  realGain :: "real option"
  nominalGain :: "real option"

record simulationResult =
  success :: bool
  schedule :: "simulationMonth list"
  finalBalance :: real
  totalDeposited :: real
  totalTaxPaid :: real
  totalWithdrawnNet :: real

text \<open>The object returned by \<open>runSimulationPeriod\<close>.\<close>

record periodResult =
  scheduleP :: "simulationMonth list"
  finalBalanceP :: real
  finalCostBasis :: real
  finalNominalCostBasis :: real
  failed :: bool

subsection \<open>Monthly rates\<close>

definition getMonthlyRate :: "real \<Rightarrow> real" where
  "getMonthlyRate annualRate = (1 + annualRate / 100) powr (1 / 12) - 1"

subsection \<open>The event map: \<open>Map<number, SavingsEvent[]>\<close>, keys in insertion order\<close>

type_synonym eventMap = "(int \<times> savingsEvent list) list"

text \<open>
  \<open>if (!m.has(e.monthOffset)) m.set(e.monthOffset, []); m.get(e.monthOffset)?.push(e)\<close>
\<close>

definition pushEvent :: "eventMap \<Rightarrow> savingsEvent \<Rightarrow> eventMap" where
  "pushEvent m e =
     (if map_of m (monthOffset e) = None then m @ [(monthOffset e, [e])]
      else map (\<lambda>(k, es). if k = monthOffset e then (k, es @ [e]) else (k, es)) m)"

definition groupByMonth :: "savingsEvent list \<Rightarrow> eventMap" where
  "groupByMonth events = fold (\<lambda>e m. pushEvent m e) events []"

subsection \<open>runSimulationPeriod\<close>

text \<open>
  The mutable locals of \<open>runSimulationPeriod\<close>: the account (\<open>balance\<close>, the local
  \<open>costBasis\<close> as \<open>realCostBasis\<close>, \<open>nominalCostBasis\<close>), the \<open>failed\<close> flag, the schedule
  built so far, and the accumulators of the current month.
\<close>

record simVars =
  balance :: real
  realCostBasis :: real
  nominalCostBasis :: real
  failedV :: bool
  scheduleV :: "simulationMonth list"
  monthWithdrawalGross :: real
  monthWithdrawalNet :: real
  monthTaxPaid :: real
  monthRealGain :: real
  monthNominalGain :: real
  preWithdrawalBalanceV :: real
  eventRef :: "savingsEvent option"

text \<open>The quantities computed for one event (lines 74 to 103 of the source).\<close>

definition targetNetNominal :: "financialParams \<Rightarrow> int \<Rightarrow> savingsEvent \<Rightarrow> real" where
  "targetNetNominal params currentMonthIndex event =
     (let monthlyInflationRate = getMonthlyRate (annualInflation params);
          totalMonthsPassed = currentMonthIndex;
          inflationFactor = (1 + monthlyInflationRate) powi totalMonthsPassed
      in targetAmount event * inflationFactor)"

definition realProfitRatio :: "simVars \<Rightarrow> real" where
  "realProfitRatio v = (if balance v > 0 then max 0 (1 - realCostBasis v / balance v) else 0)"

definition nominalProfitRatio :: "simVars \<Rightarrow> real" where
  "nominalProfitRatio v =
     (if balance v > 0 then max 0 (1 - nominalCostBasis v / balance v) else 0)"

definition grossNeeded :: "financialParams \<Rightarrow> int \<Rightarrow> simVars \<Rightarrow> savingsEvent \<Rightarrow> real" where
  "grossNeeded params currentMonthIndex v event =
     (let taxRate = capitalGainsTax params / 100;
          effectiveTaxRate = realProfitRatio v * taxRate
      in targetNetNominal params currentMonthIndex event / (1 - effectiveTaxRate))"

text \<open>The body of \<open>for (const event of monthEvents)\<close>.\<close>

definition processEvent :: "financialParams \<Rightarrow> int \<Rightarrow> simVars \<Rightarrow> savingsEvent \<Rightarrow> simVars" where
  "processEvent params currentMonthIndex v event =
     (let net = targetNetNominal params currentMonthIndex event;
          rpr = realProfitRatio v;
          npr = nominalProfitRatio v;
          gross = grossNeeded params currentMonthIndex v event;
          failed1 = (if balance v \<le> 0 \<and> gross > 0 then True else failedV v);
          tax = gross - net;
          realGain1 = gross * rpr;
          nominalGain1 = gross * npr;
          balance1 = balance v - gross;
          withdrawalRatio = gross / (balance1 + gross)
      in v\<lparr> balance := balance1,
            realCostBasis :=
              (if balance1 + gross > 0 then realCostBasis v * (1 - withdrawalRatio) else 0),
            nominalCostBasis :=
              (if balance1 + gross > 0 then nominalCostBasis v * (1 - withdrawalRatio) else 0),
            failedV := failed1,
            monthWithdrawalGross := monthWithdrawalGross v + gross,
            monthWithdrawalNet := monthWithdrawalNet v + net,
            monthTaxPaid := monthTaxPaid v + tax,
            monthRealGain := monthRealGain v + realGain1,
            monthNominalGain := monthNominalGain v + nominalGain1,
            eventRef := Some event \<rparr>)"

text \<open>Steps 1 to 3 of a month, with the month's accumulators reset.\<close>

definition depositAndGrow :: "financialParams \<Rightarrow> real \<Rightarrow> simVars \<Rightarrow> simVars" where
  "depositAndGrow params monthlyDeposit v =
     (let monthlyReturnRate = getMonthlyRate (annualReturn params);
          monthlyInflationRate = getMonthlyRate (annualInflation params)
      in v\<lparr> balance := (balance v + monthlyDeposit) * (1 + monthlyReturnRate),
            realCostBasis := (realCostBasis v + monthlyDeposit) * (1 + monthlyInflationRate),
            nominalCostBasis := nominalCostBasis v + monthlyDeposit,
            monthWithdrawalGross := 0,
            monthWithdrawalNet := 0,
            monthTaxPaid := 0,
            monthRealGain := 0,
            monthNominalGain := 0,
            preWithdrawalBalanceV := 0,
            eventRef := None \<rparr>)"

text \<open>Step 4: \<open>if (monthEvents) { preWithdrawalBalance = balance; for (...) {...} }\<close>.\<close>

definition handleEvents :: "financialParams \<Rightarrow> int \<Rightarrow> eventMap \<Rightarrow> simVars \<Rightarrow> simVars" where
  "handleEvents params currentMonthIndex eventsInPeriod v =
     (case map_of eventsInPeriod currentMonthIndex of
        None \<Rightarrow> v
      | Some monthEvents \<Rightarrow>
          fold (\<lambda>event w. processEvent params currentMonthIndex w event) monthEvents
            (v\<lparr> preWithdrawalBalanceV := balance v \<rparr>))"

text \<open>The record pushed at the end of a month, from the locals \<open>w\<close> after step 4.\<close>

definition monthRecord ::
  "dateExpr \<Rightarrow> int \<Rightarrow> int \<Rightarrow> real \<Rightarrow> real \<Rightarrow> simVars \<Rightarrow> simulationMonth" where
  "monthRecord startDate0 currentMonthIndex i monthlyDeposit balanceStart0 w =
     \<lparr> monthIndex = currentMonthIndex,
       date = addMonths startDate0 i,
       deposit = monthlyDeposit,
       balanceStart = balanceStart0,
       balanceEnd = balance w,
       costBasis = realCostBasis w,
       eventOccurred = eventRef w,
       withdrawalGross =
         (if monthWithdrawalGross w > 0 then Some (monthWithdrawalGross w) else None),
       withdrawalNet = (if monthWithdrawalNet w > 0 then Some (monthWithdrawalNet w) else None),
       taxPaid = (if monthTaxPaid w > 0 then Some (monthTaxPaid w) else None),
       preWithdrawalBalance =
         (if monthWithdrawalGross w > 0 then Some (preWithdrawalBalanceV w) else None),
       realGain = (if monthWithdrawalGross w > 0 then Some (monthRealGain w) else None),
       nominalGain = (if monthWithdrawalGross w > 0 then Some (monthNominalGain w) else None) \<rparr>"

text \<open>The body of \<open>for (let i = 0; i < durationMonths; i++)\<close>.\<close>

definition monthBody ::
  "financialParams \<Rightarrow> eventMap \<Rightarrow> dateExpr \<Rightarrow> int \<Rightarrow> real \<Rightarrow> int \<Rightarrow> simVars \<Rightarrow> simVars" where
  "monthBody params eventsInPeriod startDate0 startMonthIndex monthlyDeposit i v =
     (let currentMonthIndex = startMonthIndex + i;
          balanceStart0 = balance v;
          w = handleEvents params currentMonthIndex eventsInPeriod
                (depositAndGrow params monthlyDeposit v)
      in w\<lparr> scheduleV :=
              scheduleV w @
                [monthRecord startDate0 currentMonthIndex i monthlyDeposit balanceStart0 w],
            failedV := (if balance w < - 1 then True else failedV w) \<rparr>)"

text \<open>The loop: \<open>i\<close> is the loop counter, the \<open>nat\<close> argument counts the iterations left.\<close>

fun monthLoop ::
  "financialParams \<Rightarrow> eventMap \<Rightarrow> dateExpr \<Rightarrow> int \<Rightarrow> real \<Rightarrow> int \<Rightarrow> nat \<Rightarrow> simVars \<Rightarrow> simVars"
where
  "monthLoop params evs startDate0 startMonthIndex monthlyDeposit i 0 v = v"
| "monthLoop params evs startDate0 startMonthIndex monthlyDeposit i (Suc k) v =
     monthLoop params evs startDate0 startMonthIndex monthlyDeposit (i + 1) k
       (monthBody params evs startDate0 startMonthIndex monthlyDeposit i v)"

definition initVars :: "real \<Rightarrow> real \<Rightarrow> real \<Rightarrow> simVars" where
  "initVars startBalance startCostBasis startNominalCostBasis =
     \<lparr> balance = startBalance, realCostBasis = startCostBasis,
       nominalCostBasis = startNominalCostBasis, failedV = False, scheduleV = [],
       monthWithdrawalGross = 0, monthWithdrawalNet = 0, monthTaxPaid = 0,
       monthRealGain = 0, monthNominalGain = 0, preWithdrawalBalanceV = 0,
       eventRef = None \<rparr>"

definition runSimulationPeriod ::
  "real \<Rightarrow> real \<Rightarrow> real \<Rightarrow> dateExpr \<Rightarrow> int \<Rightarrow> int \<Rightarrow> real \<Rightarrow> financialParams \<Rightarrow> eventMap
     \<Rightarrow> periodResult" where
  "runSimulationPeriod startBalance startCostBasis startNominalCostBasis startDate0
       startMonthIndex durationMonths monthlyDeposit params eventsInPeriod =
     (let v = monthLoop params eventsInPeriod startDate0 startMonthIndex monthlyDeposit 0
                (nat durationMonths)
                (initVars startBalance startCostBasis startNominalCostBasis)
      in \<lparr> scheduleP = scheduleV v, finalBalanceP = balance v,
           finalCostBasis = realCostBasis v, finalNominalCostBasis = nominalCostBasis v,
           failed = failedV v \<rparr>)"

subsection \<open>solveRequiredDeposit\<close>

text \<open>
  The binary search: the \<open>nat\<close> argument counts the iterations left, the triple is
  \<open>(low, high, result)\<close>, and \<open>fails mid\<close> is \<open>sim.failed\<close> of the simulation at \<open>mid\<close>.
\<close>

fun searchLoop :: "(real \<Rightarrow> bool) \<Rightarrow> nat \<Rightarrow> real \<times> real \<times> real \<Rightarrow> real \<times> real \<times> real" where
  "searchLoop fails 0 s = s"
| "searchLoop fails (Suc k) (low, high, result) =
     (let mid = (low + high) / 2
      in if fails mid then searchLoop fails k (mid, high, result)
         else searchLoop fails k (low, mid, mid))"

text \<open>\<open>Math.max(...events.map(e => e.monthOffset))\<close> on a non-empty list.\<close>

definition lastEventMonthOf :: "savingsEvent list \<Rightarrow> int" where
  "lastEventMonthOf events = fold max (map monthOffset (tl events)) (monthOffset (hd events))"

text \<open>The simulation of one iteration of the search, and its \<open>failed\<close> flag.\<close>

definition searchSim ::
  "real \<Rightarrow> real \<Rightarrow> real \<Rightarrow> dateExpr \<Rightarrow> int \<Rightarrow> savingsEvent list \<Rightarrow> financialParams \<Rightarrow> real
     \<Rightarrow> periodResult" where
  "searchSim startBalance startCostBasis startNominalCostBasis startDate0 startMonthIndex
       events params mid =
     (let lastEventMonth = lastEventMonthOf events;
          duration = lastEventMonth - startMonthIndex + 1;
          periodEvents = groupByMonth events
      in runSimulationPeriod startBalance startCostBasis startNominalCostBasis startDate0
           startMonthIndex duration mid params periodEvents)"

definition maxDepositCap :: real where
  "maxDepositCap = 1000000"

text \<open>The twenty iterations, from \<open>low = 0\<close>, \<open>high = result = maxDepositCap\<close>.\<close>

definition searchDeposit ::
  "real \<Rightarrow> real \<Rightarrow> real \<Rightarrow> dateExpr \<Rightarrow> int \<Rightarrow> savingsEvent list \<Rightarrow> financialParams
     \<Rightarrow> real \<times> real \<times> real" where
  "searchDeposit startBalance startCostBasis startNominalCostBasis startDate0
       startMonthIndex events params =
     searchLoop
       (\<lambda>mid. failed (searchSim startBalance startCostBasis startNominalCostBasis
                         startDate0 startMonthIndex events params mid))
       20 (0, maxDepositCap, maxDepositCap)"

definition solveRequiredDeposit ::
  "real \<Rightarrow> real \<Rightarrow> real \<Rightarrow> dateExpr \<Rightarrow> int \<Rightarrow> savingsEvent list \<Rightarrow> financialParams \<Rightarrow> real" where
  "solveRequiredDeposit startBalance startCostBasis startNominalCostBasis startDate0
       startMonthIndex events params =
     (if events = [] then 0
      else
        let (low, high, result) =
              searchDeposit startBalance startCostBasis startNominalCostBasis startDate0
                startMonthIndex events params
        in real_of_int \<lceil>result / 10\<rceil> * 10)"

subsection \<open>calculateSavingsPlan\<close>

text \<open>
  The locals of the segment loop. \<open>maxDepositConstraint\<close> is \<open>None\<close> while it is
  \<open>Infinity\<close>.
\<close>

record planVars =
  currentBalance :: real
  currentCostBasis :: real
  currentNominalCostBasis :: real
  currentMonth :: int
  maxDepositConstraint :: "real option"
  fullSchedule :: "simulationMonth list"

text \<open>The body of \<open>for (const nextEventMonth of eventMonths)\<close>.\<close>

definition actualDepositOf :: "real \<Rightarrow> real option \<Rightarrow> real" where
  "actualDepositOf requiredDeposit maxDeposit =
     (case maxDeposit of
        None \<Rightarrow> requiredDeposit
      | Some c \<Rightarrow> if requiredDeposit > c then c else requiredDeposit)"

definition segmentStep ::
  "financialParams \<Rightarrow> dateExpr \<Rightarrow> savingsEvent list \<Rightarrow> eventMap \<Rightarrow> int \<Rightarrow> planVars \<Rightarrow> planVars"
where
  "segmentStep params startDate0 sortedEvents eventsByMonth nextEventMonth p =
     (let remainingEvents = filter (\<lambda>e. monthOffset e \<ge> currentMonth p) sortedEvents;
          requiredDeposit =
            solveRequiredDeposit (currentBalance p) (currentCostBasis p)
              (currentNominalCostBasis p) (addMonths startDate0 (currentMonth p))
              (currentMonth p) remainingEvents params;
          actualDeposit = actualDepositOf requiredDeposit (maxDepositConstraint p);
          duration = nextEventMonth - currentMonth p + 1;
          segmentEvents =
            [(nextEventMonth,
              case map_of eventsByMonth nextEventMonth of None \<Rightarrow> [] | Some es \<Rightarrow> es)];
          simSegment =
            runSimulationPeriod (currentBalance p) (currentCostBasis p)
              (currentNominalCostBasis p) (addMonths startDate0 (currentMonth p))
              (currentMonth p) duration actualDeposit params segmentEvents
      in \<lparr> currentBalance = finalBalanceP simSegment,
           currentCostBasis = finalCostBasis simSegment,
           currentNominalCostBasis = finalNominalCostBasis simSegment,
           currentMonth = nextEventMonth + 1,
           maxDepositConstraint = Some actualDeposit,
           fullSchedule = fullSchedule p @ scheduleP simSegment \<rparr>)"

definition initPlan :: "financialParams \<Rightarrow> planVars" where
  "initPlan params =
     \<lparr> currentBalance = initialCapital params, currentCostBasis = initialCapital params,
       currentNominalCostBasis = initialCapital params, currentMonth = 0,
       maxDepositConstraint = None, fullSchedule = [] \<rparr>"

definition segmentLoop :: "financialParams \<Rightarrow> savingsEvent list \<Rightarrow> planVars" where
  "segmentLoop params sortedEvents =
     (let startDate0 = NewDate (startDate params);
          eventsByMonth = groupByMonth sortedEvents;
          eventMonths = sort (map fst eventsByMonth)
      in fold (\<lambda>nextEventMonth p.
                 segmentStep params startDate0 sortedEvents eventsByMonth nextEventMonth p)
           eventMonths (initPlan params))"

text \<open>The function from its second statement on, given the sorted copy of the events.\<close>

definition planOfSorted :: "financialParams \<Rightarrow> savingsEvent list \<Rightarrow> simulationResult" where
  "planOfSorted params sortedEvents =
     (if sortedEvents = [] then
        \<lparr> success = True, schedule = [], finalBalance = initialCapital params,
          totalDeposited = 0, totalTaxPaid = 0, totalWithdrawnNet = 0 \<rparr>
      else
        let p = segmentLoop params sortedEvents;
            totalDeposited0 = fold (\<lambda>m acc. acc + deposit m) (fullSchedule p) 0;
            totalWithdrawnNet0 =
              fold (\<lambda>m acc. acc + (case withdrawalNet m of None \<Rightarrow> 0 | Some x \<Rightarrow> x))
                (fullSchedule p) 0;
            totalTaxPaid0 =
              fold (\<lambda>m acc. acc + (case taxPaid m of None \<Rightarrow> 0 | Some x \<Rightarrow> x))
                (fullSchedule p) 0;
            failed0 = list_ex (\<lambda>m. balanceEnd m < - 1) (fullSchedule p)
        in \<lparr> success = \<not> failed0, schedule = fullSchedule p,
             finalBalance = currentBalance p, totalDeposited = totalDeposited0,
             totalTaxPaid = totalTaxPaid0, totalWithdrawnNet = totalWithdrawnNet0 \<rparr>)"

text \<open>
  \<open>const sortedEvents = [...events].sort((a, b) => a.monthOffset - b.monthOffset)\<close>: the
  sort is stable, as \<open>sort_key\<close> is.
\<close>

definition calculateSavingsPlan :: "financialParams \<Rightarrow> savingsEvent list \<Rightarrow> simulationResult" where
  "calculateSavingsPlan params events = planOfSorted params (sort_key monthOffset events)"

subsection \<open>The exception of formatDate\<close>

text \<open>
  \<open>formatDate\<close> hands the date to \<open>Intl.DateTimeFormat.format\<close>, which raises a
  \<open>RangeError\<close> when the date is invalid (its time value is NaN): \<open>new Date(s)\<close> for a
  string that does not parse, and any date derived from it or pushed out of the range of time
  values by \<open>setMonth\<close>. Nothing catches it, so it ends the call of every function below.
  Which dates are valid is the platform's; it is the parameter \<open>valid\<close>. The functions with
  an \<open>E\<close> are the functions above with this exception: \<open>Inl\<close> is the exception raised,
  \<open>Inr\<close> the value returned. A month's date is formatted while its record is built, after
  the month's events; the record and the locals are those of \<open>monthBody\<close>.
\<close>

datatype jsError = RangeError





fun searchLoopE ::
  "(real \<Rightarrow> jsError + periodResult) \<Rightarrow> nat \<Rightarrow> real \<times> real \<times> real
     \<Rightarrow> jsError + real \<times> real \<times> real" where
  "searchLoopE sim 0 s = Inr s"
| "searchLoopE sim (Suc k) (low, high, result) =
     (let mid = (low + high) / 2
      in case sim mid of
           Inl e \<Rightarrow> Inl e
         | Inr r \<Rightarrow>
             if failed r then searchLoopE sim k (mid, high, result)
             else searchLoopE sim k (low, mid, mid))"







subsection \<open>The special values of numbers\<close>

text \<open>
  Where NaN and the infinities decide what the source does, the month's arithmetic is modelled
  a second time on \<open>jsnum\<close>: a finite number (a real: no rounding, no overflow, and a zero
  is \<open>+0\<close>), \<open>+Infinity\<close>, \<open>-Infinity\<close> or NaN, with the operators of the source on them.
  \<open>jpowTwelfth\<close> is \<open>Math.pow(x, 1 / 12)\<close> and \<open>jpowInt\<close> is \<open>Math.pow\<close> with an integer
  exponent. The functions with a \<open>J\<close> are steps 1 to 3 of a month and the quantities of
  one event (lines 39 to 41, 49 to 57 and 74 to 94 of the source) on these numbers.
\<close>

datatype jsnum = Fin real | PInf | NInf | NaN

fun jneg :: "jsnum \<Rightarrow> jsnum" where
  "jneg (Fin a) = Fin (- a)"
| "jneg PInf = NInf"
| "jneg NInf = PInf"
| "jneg NaN = NaN"

fun jadd :: "jsnum \<Rightarrow> jsnum \<Rightarrow> jsnum" where
  "jadd (Fin a) (Fin b) = Fin (a + b)"
| "jadd NaN y = NaN"
| "jadd x NaN = NaN"
| "jadd PInf NInf = NaN"
| "jadd NInf PInf = NaN"
| "jadd PInf y = PInf"
| "jadd x PInf = PInf"
| "jadd NInf y = NInf"
| "jadd x NInf = NInf"

definition jsub :: "jsnum \<Rightarrow> jsnum \<Rightarrow> jsnum" where
  "jsub x y = jadd x (jneg y)"

fun jsign :: "jsnum \<Rightarrow> int" where
  "jsign (Fin a) = (if a > 0 then 1 else if a < 0 then - 1 else 0)"
| "jsign PInf = 1"
| "jsign NInf = - 1"
| "jsign NaN = 0"

definition signedInf :: "int \<Rightarrow> jsnum" where
  "signedInf s = (if s > 0 then PInf else if s < 0 then NInf else NaN)"

fun jmul :: "jsnum \<Rightarrow> jsnum \<Rightarrow> jsnum" where
  "jmul (Fin a) (Fin b) = Fin (a * b)"
| "jmul NaN y = NaN"
| "jmul x NaN = NaN"
| "jmul x y = signedInf (jsign x * jsign y)"

fun jdiv :: "jsnum \<Rightarrow> jsnum \<Rightarrow> jsnum" where
  "jdiv (Fin a) (Fin b) = (if b \<noteq> 0 then Fin (a / b) else signedInf (jsign (Fin a)))"
| "jdiv NaN y = NaN"
| "jdiv x NaN = NaN"
| "jdiv (Fin a) y = Fin 0"
| "jdiv x (Fin b) = signedInf (jsign x * (if b < 0 then - 1 else 1))"
| "jdiv x y = NaN"

fun jlt :: "jsnum \<Rightarrow> jsnum \<Rightarrow> bool" where
  "jlt (Fin a) (Fin b) = (a < b)"
| "jlt NaN y = False"
| "jlt x NaN = False"
| "jlt NInf NInf = False"
| "jlt NInf y = True"
| "jlt x NInf = False"
| "jlt PInf y = False"
| "jlt x PInf = True"

definition jgt :: "jsnum \<Rightarrow> jsnum \<Rightarrow> bool" where
  "jgt x y = jlt y x"

definition jmax :: "jsnum \<Rightarrow> jsnum \<Rightarrow> jsnum" where
  "jmax x y = (if x = NaN \<or> y = NaN then NaN else if jlt x y then y else x)"

fun jpowTwelfth :: "jsnum \<Rightarrow> jsnum" where
  "jpowTwelfth (Fin a) = (if a < 0 then NaN else Fin (a powr (1 / 12)))"
| "jpowTwelfth PInf = PInf"
| "jpowTwelfth NInf = PInf"
| "jpowTwelfth NaN = NaN"

fun jpowInt :: "jsnum \<Rightarrow> int \<Rightarrow> jsnum" where
  "jpowInt (Fin a) n =
     (if n = 0 then Fin 1 else if a = 0 \<and> n < 0 then PInf else Fin (a powi n))"
| "jpowInt PInf n = (if n = 0 then Fin 1 else if n < 0 then Fin 0 else PInf)"
| "jpowInt NInf n =
     (if n = 0 then Fin 1 else if n < 0 then Fin 0 else if even n then PInf else NInf)"
| "jpowInt NaN n = (if n = 0 then Fin 1 else NaN)"

definition getMonthlyRateJ :: "real \<Rightarrow> jsnum" where
  "getMonthlyRateJ annualRate =
     jsub (jpowTwelfth (jadd (Fin 1) (jdiv (Fin annualRate) (Fin 100)))) (Fin 1)"

record accountJ =
  balanceJ :: jsnum
  costBasisJ :: jsnum
  nominalCostBasisJ :: jsnum

definition depositAndGrowJ :: "financialParams \<Rightarrow> real \<Rightarrow> accountJ \<Rightarrow> accountJ" where
  "depositAndGrowJ params monthlyDeposit a =
     (let monthlyReturnRate = getMonthlyRateJ (annualReturn params);
          monthlyInflationRate = getMonthlyRateJ (annualInflation params)
      in \<lparr> balanceJ =
             jmul (jadd (balanceJ a) (Fin monthlyDeposit)) (jadd (Fin 1) monthlyReturnRate),
           costBasisJ =
             jmul (jadd (costBasisJ a) (Fin monthlyDeposit)) (jadd (Fin 1) monthlyInflationRate),
           nominalCostBasisJ = jadd (nominalCostBasisJ a) (Fin monthlyDeposit) \<rparr>)"

definition targetNetNominalJ :: "financialParams \<Rightarrow> int \<Rightarrow> savingsEvent \<Rightarrow> jsnum" where
  "targetNetNominalJ params currentMonthIndex event =
     (let monthlyInflationRate = getMonthlyRateJ (annualInflation params);
          totalMonthsPassed = currentMonthIndex;
          inflationFactor = jpowInt (jadd (Fin 1) monthlyInflationRate) totalMonthsPassed
      in jmul (Fin (targetAmount event)) inflationFactor)"

definition realProfitRatioJ :: "accountJ \<Rightarrow> jsnum" where
  "realProfitRatioJ a =
     (if jgt (balanceJ a) (Fin 0)
      then jmax (Fin 0) (jsub (Fin 1) (jdiv (costBasisJ a) (balanceJ a))) else Fin 0)"

definition grossNeededJ :: "financialParams \<Rightarrow> int \<Rightarrow> accountJ \<Rightarrow> savingsEvent \<Rightarrow> jsnum" where
  "grossNeededJ params currentMonthIndex a event =
     (let taxRate = jdiv (Fin (capitalGainsTax params)) (Fin 100);
          effectiveTaxRate = jmul (realProfitRatioJ a) taxRate
      in jdiv (targetNetNominalJ params currentMonthIndex event)
           (jsub (Fin 1) effectiveTaxRate))"

subsection \<open>Rounded arithmetic\<close>

text \<open>
  Every operator of the source returns the double nearest to its exact result. Where a claim
  depends on that, steps 1 to 3 of a month (lines 39 to 40 and 49 to 57 of the source) are
  modelled once more with the rounding as a parameter \<open>rnd\<close>, applied to the result of every
  operator, and \<open>Math.pow\<close> as a parameter \<open>pw\<close>, whose results are doubles. With no
  rounding and the power of the reals they are \<open>getMonthlyRate\<close> and \<open>depositAndGrow\<close>.
  Overflow is not modelled.
\<close>

definition getMonthlyRateR :: "(real \<Rightarrow> real) \<Rightarrow> (real \<Rightarrow> real \<Rightarrow> real) \<Rightarrow> real \<Rightarrow> real" where
  "getMonthlyRateR rnd pw annualRate =
     rnd (pw (rnd (1 + rnd (annualRate / 100))) (rnd (1 / 12)) - 1)"

definition depositAndGrowR ::
  "(real \<Rightarrow> real) \<Rightarrow> (real \<Rightarrow> real \<Rightarrow> real) \<Rightarrow> financialParams \<Rightarrow> real \<Rightarrow> simVars \<Rightarrow> simVars"
where
  "depositAndGrowR rnd pw params monthlyDeposit v =
     (let monthlyReturnRate = getMonthlyRateR rnd pw (annualReturn params);
          monthlyInflationRate = getMonthlyRateR rnd pw (annualInflation params)
      in v\<lparr> balance := rnd (rnd (balance v + monthlyDeposit) * rnd (1 + monthlyReturnRate)),
            realCostBasis :=
              rnd (rnd (realCostBasis v + monthlyDeposit) * rnd (1 + monthlyInflationRate)),
            nominalCostBasis := rnd (nominalCostBasis v + monthlyDeposit),
            monthWithdrawalGross := 0,
            monthWithdrawalNet := 0,
            monthTaxPaid := 0,
            monthRealGain := 0,
            monthNominalGain := 0,
            preWithdrawalBalanceV := 0,
            eventRef := None \<rparr>)"

text \<open>
  The reduction of a cost basis at a withdrawal (lines 105 to 111 of the source), from the
  balance after the withdrawal and the gross amount, with the same rounding.
\<close>

definition reduceCostBasisR :: "(real \<Rightarrow> real) \<Rightarrow> real \<Rightarrow> real \<Rightarrow> real \<Rightarrow> real" where
  "reduceCostBasisR rnd balanceAfter grossNeeded0 costBasis0 =
     (if rnd (balanceAfter + grossNeeded0) > 0
      then let withdrawalRatio = rnd (grossNeeded0 / rnd (balanceAfter + grossNeeded0))
           in rnd (costBasis0 * rnd (1 - withdrawalRatio))
      else 0)"

subsection \<open>calculateSavingsPlan on a store\<close>

text \<open>
  For the effect of a call on the caller's objects the arguments are references into a
  store: arrays of references to event objects, event objects, and parameter objects, each
  by address, with \<open>nextAddr\<close> the next address to allocate. The statements of
  \<open>calculateSavingsPlan\<close> that touch an array the caller can reach are the spread copy
  \<open>[...events]\<close>, which allocates, and \<open>.sort\<close>, which sorts the array it is called on in
  place. Everything after that reads \<open>params\<close>, the sorted copy and the event objects, and
  allocates its own maps, arrays, dates and month records: it assigns to no field of
  \<open>params\<close> or of an event and calls no mutating method on \<open>events\<close>, so it is the function
  \<open>planOfSorted\<close> of the values read. A reference that is not an object of the expected
  kind is a \<open>TypeError\<close> in the source and \<open>None\<close> here.
\<close>

record store =
  arrays :: "nat \<Rightarrow> nat list option"
  eventObjs :: "nat \<Rightarrow> savingsEvent option"
  paramObjs :: "nat \<Rightarrow> financialParams option"
  nextAddr :: nat

definition allocArray :: "nat list \<Rightarrow> store \<Rightarrow> nat \<times> store" where
  "allocArray refs h =
     (nextAddr h, h\<lparr> arrays := (arrays h)(nextAddr h \<mapsto> refs), nextAddr := Suc (nextAddr h) \<rparr>)"

text \<open>The event objects behind an array of references.\<close>

definition derefEvents :: "store \<Rightarrow> nat list \<Rightarrow> savingsEvent list option" where
  "derefEvents h refs = those (map (eventObjs h) refs)"

text \<open>\<open>a.sort((x, y) => x.monthOffset - y.monthOffset)\<close>, in place.\<close>

definition sortInPlace :: "nat \<Rightarrow> store \<Rightarrow> store option" where
  "sortInPlace a h =
     (case arrays h a of
        None \<Rightarrow> None
      | Some refs \<Rightarrow>
          (case derefEvents h refs of
             None \<Rightarrow> None
           | Some es \<Rightarrow>
               Some (h\<lparr> arrays :=
                          (arrays h)(a \<mapsto> map fst (sort_key (monthOffset \<circ> snd) (zip refs es))) \<rparr>)))"

definition calculateSavingsPlanH :: "nat \<Rightarrow> nat \<Rightarrow> store \<Rightarrow> (simulationResult \<times> store) option" where
  "calculateSavingsPlanH paramsRef eventsRef h =
     (case (paramObjs h paramsRef, arrays h eventsRef) of
        (Some params, Some refs) \<Rightarrow>
          (let (sortedRef, h1) = allocArray refs h
           in case sortInPlace sortedRef h1 of
                None \<Rightarrow> None
              | Some h2 \<Rightarrow>
                  (case arrays h2 sortedRef of
                     None \<Rightarrow> None
                   | Some sortedRefs \<Rightarrow>
                       (case derefEvents h2 sortedRefs of
                          None \<Rightarrow> None
                        | Some sortedEvents \<Rightarrow> Some (planOfSorted params sortedEvents, h2))))
      | _ \<Rightarrow> None)"

section \<open>Auxiliary definitions for the statements and the proofs\<close>

text \<open>The events due in a month: the entry of the map, or none (\<open>m.get(idx) || []\<close>).\<close>

definition eventsDue :: "eventMap \<Rightarrow> int \<Rightarrow> savingsEvent list" where
  "eventsDue evs idx = (case map_of evs idx of None \<Rightarrow> [] | Some es \<Rightarrow> es)"

text \<open>
  The invariant of the account: whenever the balance is not negative, the nominal cost basis
  is at most the balance and, when \<open>withReal\<close> is set, so is the real cost basis.
\<close>

definition accountInv :: "bool \<Rightarrow> simVars \<Rightarrow> bool" where
  "accountInv withReal v \<longleftrightarrow>
     (0 \<le> balance v \<longrightarrow>
        nominalCostBasis v \<le> balance v \<and> (withReal \<longrightarrow> realCostBasis v \<le> balance v))"

text \<open>
  What round-to-nearest on doubles has: the rounding is monotone, it leaves a rounded number
  as it is, and 0 and 1 are doubles.
\<close>

definition rounding :: "(real \<Rightarrow> real) \<Rightarrow> bool" where
  "rounding rnd \<longleftrightarrow> mono rnd \<and> (\<forall>x. rnd (rnd x) = rnd x) \<and> rnd 0 = 0 \<and> rnd 1 = 1"

text \<open>The account of the locals, as finite numbers.\<close>

definition finAccount :: "simVars \<Rightarrow> accountJ" where
  "finAccount v =
     \<lparr> balanceJ = Fin (balance v), costBasisJ = Fin (realCostBasis v),
       nominalCostBasisJ = Fin (nominalCostBasis v) \<rparr>"

section \<open>Concrete inputs\<close>

text \<open>
  Parameters with zero return, zero inflation and zero tax, and a goal at a given month:
  every intermediate value of a simulation on them is a rational that doubles represent
  exactly or a small integer.
\<close>

definition zeroRates :: "real \<Rightarrow> financialParams" where
  "zeroRates capital =
     \<lparr> startDate = ''2024-01-01'', annualReturn = 0, annualInflation = 0,
       capitalGainsTax = 0, initialCapital = capital \<rparr>"

definition goalAt :: "int \<Rightarrow> real \<Rightarrow> savingsEvent" where
  "goalAt m amount = \<lparr> eventId = ''g'', name = ''goal'', monthOffset = m, targetAmount = amount \<rparr>"

definition goalNamed :: "string \<Rightarrow> int \<Rightarrow> real \<Rightarrow> savingsEvent" where
  "goalNamed ident m amount =
     \<lparr> eventId = ident, name = ''goal'', monthOffset = m, targetAmount = amount \<rparr>"

text \<open>
  Prices double every month: the annual inflation is \<open>(2 ^ 12 - 1) * 100\<close> percent, so that
  the monthly inflation rate is exactly 1.
\<close>

definition doublingPrices :: financialParams where
  "doublingPrices =
     \<lparr> startDate = ''2024-01-01'', annualReturn = 0, annualInflation = 409500,
       capitalGainsTax = 0, initialCapital = 0 \<rparr>"

text \<open>
  Parameters outside the usual range, which the engine accepts as it validates nothing:
  an inflation of -100 percent (the real cost basis is wiped out every month) and a
  capital-gains tax of 200 percent.
\<close>

definition overTaxed :: financialParams where
  "overTaxed =
     \<lparr> startDate = ''2024-01-01'', annualReturn = 0, annualInflation = - 100,
       capitalGainsTax = 200, initialCapital = 0 \<rparr>"

text \<open>
  No growth and 2 percent inflation; 5 percent growth, 2 percent inflation and a 25 percent
  tax; a rounding, to the nearest multiple of 1/1024.
\<close>

definition inflationOnly :: financialParams where
  "inflationOnly =
     \<lparr> startDate = ''2024-01-01'', annualReturn = 0, annualInflation = 2,
       capitalGainsTax = 25, initialCapital = 1000 \<rparr>"

definition growing :: financialParams where
  "growing =
     \<lparr> startDate = ''2024-01-01'', annualReturn = 5, annualInflation = 2,
       capitalGainsTax = 25, initialCapital = 1000 \<rparr>"

definition toGrid :: "real \<Rightarrow> real" where
  "toGrid x = of_int \<lfloor>x * 1024 + 1 / 2\<rfloor> / 1024"

text \<open>
  A store with the caller's array at address 0, holding the goal of month 2 before the goal
  of month 0, the two event objects at 1 and 2, and the parameters at 3.
\<close>

definition exampleStore :: store where
  "exampleStore =
     \<lparr> arrays = [0 \<mapsto> [2, 1]],
       eventObjs = [1 \<mapsto> goalNamed ''a'' 0 100, 2 \<mapsto> goalNamed ''b'' 2 200],
       paramObjs = [3 \<mapsto> zeroRates 0],
       nextAddr = 4 \<rparr>"




text \<open>No growth, no tax, and an annual inflation of -200 percent.\<close>

definition deflating :: financialParams where
  "deflating =
     \<lparr> startDate = ''2024-01-01'', annualReturn = 0, annualInflation = - 200,
       capitalGainsTax = 0, initialCapital = 1000 \<rparr>"

section \<open>Auxiliary lemmas\<close>

subsection \<open>The schedule built by the month loop\<close>

lemma processEvent_scheduleV [simp]:
  "scheduleV (processEvent params idx v e) = scheduleV v"
  by (simp add: processEvent_def Let_def)

lemma fold_processEvent_scheduleV [simp]:
  "scheduleV (fold (\<lambda>event w. processEvent params idx w event) es v) = scheduleV v"
  by (induction es arbitrary: v) simp_all

lemma handleEvents_scheduleV [simp]:
  "scheduleV (handleEvents params idx evs v) = scheduleV v"
  by (simp add: handleEvents_def split: option.splits)

lemma depositAndGrow_scheduleV [simp]:
  "scheduleV (depositAndGrow params dep v) = scheduleV v"
  by (simp add: depositAndGrow_def Let_def)

lemma monthBody_scheduleV:
  "scheduleV (monthBody params evs sd smi dep i v) =
     scheduleV v @
       [monthRecord sd (smi + i) i dep (balance v)
          (handleEvents params (smi + i) evs (depositAndGrow params dep v))]"
  by (simp add: monthBody_def Let_def)

lemma monthRecord_simps [simp]:
  "monthIndex (monthRecord sd idx i dep b w) = idx"
  "deposit (monthRecord sd idx i dep b w) = dep"
  "balanceEnd (monthRecord sd idx i dep b w) = balance w"
  "costBasis (monthRecord sd idx i dep b w) = realCostBasis w"
  "withdrawalNet (monthRecord sd idx i dep b w) =
     (if monthWithdrawalNet w > 0 then Some (monthWithdrawalNet w) else None)"
  "withdrawalGross (monthRecord sd idx i dep b w) =
     (if monthWithdrawalGross w > 0 then Some (monthWithdrawalGross w) else None)"
  "taxPaid (monthRecord sd idx i dep b w) =
     (if monthTaxPaid w > 0 then Some (monthTaxPaid w) else None)"
  by (simp_all add: monthRecord_def)

lemma monthLoop_monthIndex:
  "map monthIndex (scheduleV (monthLoop params evs sd smi dep i k v)) =
     map monthIndex (scheduleV v) @ map (\<lambda>j. smi + i + int j) [0..<k]"
proof (induction k arbitrary: i v)
  case 0
  show ?case by simp
next
  case (Suc k)
  have "map (\<lambda>j. smi + i + int j) [0..<Suc k] =
          (smi + i) # map (\<lambda>j. smi + (i + 1) + int j) [0..<k]"
    by (simp add: upt_rec [of 0 "Suc k"] map_Suc_upt [symmetric] del: upt_Suc)
  then show ?case
    by (simp add: Suc.IH monthBody_scheduleV del: upt_Suc)
qed

lemma monthLoop_deposit:
  "m \<in> set (scheduleV (monthLoop params evs sd smi dep i k v)) \<Longrightarrow>
     m \<in> set (scheduleV v) \<or> deposit m = dep"
proof (induction k arbitrary: i v)
  case 0
  then show ?case by simp
next
  case (Suc k)
  from Suc.prems have "m \<in> set (scheduleV (monthBody params evs sd smi dep i v)) \<or> deposit m = dep"
    using Suc.IH by simp
  then show ?case by (auto simp: monthBody_scheduleV)
qed

lemma runSimulationPeriod_monthIndex:
  "map monthIndex (scheduleP (runSimulationPeriod sb scb sncb sd smi dur dep params evs)) =
     map (\<lambda>j. smi + int j) [0..<nat dur]"
  by (simp add: runSimulationPeriod_def Let_def monthLoop_monthIndex initVars_def)

lemma runSimulationPeriod_deposit:
  "m \<in> set (scheduleP (runSimulationPeriod sb scb sncb sd smi dur dep params evs)) \<Longrightarrow>
     deposit m = dep"
  using monthLoop_deposit [of m params evs sd smi dep 0 "nat dur" "initVars sb scb sncb"]
  by (simp add: runSimulationPeriod_def Let_def initVars_def)

subsection \<open>The segment loop of the plan\<close>

lemma map_fst_pushEvent:
  "map fst (pushEvent m e) =
     (if monthOffset e \<in> set (map fst m) then map fst m else map fst m @ [monthOffset e])"
proof -
  have "map fst (map (\<lambda>(k, es). if k = monthOffset e then (k, es @ [e]) else (k, es)) m) = map fst m"
    by (induction m) auto
  then show ?thesis
    by (auto simp: pushEvent_def map_of_eq_None_iff)
qed

lemma fold_pushEvent_keys:
  "distinct (map fst m) \<Longrightarrow>
     distinct (map fst (fold (\<lambda>e m. pushEvent m e) es m)) \<and>
     set (map fst (fold (\<lambda>e m. pushEvent m e) es m)) = set (map fst m) \<union> monthOffset ` set es"
proof (induction es arbitrary: m)
  case Nil
  then show ?case by simp
next
  case (Cons e es)
  have d: "distinct (map fst (pushEvent m e))"
    using Cons.prems by (simp add: map_fst_pushEvent)
  have s: "set (map fst (pushEvent m e)) = insert (monthOffset e) (set (map fst m))"
    by (auto simp: map_fst_pushEvent)
  show ?case
    using Cons.IH [OF d] s by auto
qed

lemma groupByMonth_keys:
  "distinct (map fst (groupByMonth es))"
  "set (map fst (groupByMonth es)) = monthOffset ` set es"
  using fold_pushEvent_keys [of "[]" es] by (simp_all add: groupByMonth_def)

lemma map_upt_upto: "map (\<lambda>j. a + int j) [0..<n] = [a..a + int n - 1]"
proof (induction n)
  case 0
  show ?case by simp
next
  case (Suc n)
  have "[a..a + int (Suc n) - 1] = [a..a + int n - 1] @ [a + int n]"
    using upto_rec2 [of a "a + int n"] by simp
  with Suc show ?case by simp
qed

lemma segmentStep_simps:
  "currentMonth (segmentStep params sd evs ebm nxt p) = nxt + 1"
  "maxDepositConstraint (segmentStep params sd evs ebm nxt p) =
     Some (actualDepositOf
       (solveRequiredDeposit (currentBalance p) (currentCostBasis p) (currentNominalCostBasis p)
          (addMonths sd (currentMonth p)) (currentMonth p)
          (filter (\<lambda>e. monthOffset e \<ge> currentMonth p) evs) params)
       (maxDepositConstraint p))"
  by (simp_all add: segmentStep_def Let_def)

lemma segmentStep_schedule:
  "\<exists>seg. fullSchedule (segmentStep params sd evs ebm nxt p) = fullSchedule p @ seg \<and>
     map monthIndex seg = map (\<lambda>j. currentMonth p + int j) [0..<nat (nxt - currentMonth p + 1)] \<and>
     (\<forall>m\<in>set seg. deposit m = the (maxDepositConstraint (segmentStep params sd evs ebm nxt p)))"
  by (simp add: segmentStep_def Let_def runSimulationPeriod_monthIndex runSimulationPeriod_deposit)

lemma actualDepositOf_le: "actualDepositOf r (Some c) \<le> c"
  by (simp add: actualDepositOf_def)

lemma sorted_wrt_const_deposit:
  "\<forall>m\<in>set xs. deposit m = (a::real) \<Longrightarrow> sorted_wrt (\<lambda>x y. deposit y \<le> deposit x) xs"
  by (induction xs) auto

lemma segment_fold_deposits:
  assumes "sorted_wrt (\<lambda>x y. deposit y \<le> deposit x) (fullSchedule p)"
    and "case maxDepositConstraint p of None \<Rightarrow> fullSchedule p = []
         | Some c \<Rightarrow> \<forall>m\<in>set (fullSchedule p). c \<le> deposit m"
  shows "sorted_wrt (\<lambda>x y. deposit y \<le> deposit x)
           (fullSchedule (fold (\<lambda>nxt p. segmentStep params sd evs ebm nxt p) ms p))"
  using assms
proof (induction ms arbitrary: p)
  case Nil
  then show ?case by simp
next
  case (Cons nxt ms)
  let ?q = "segmentStep params sd evs ebm nxt p"
  obtain seg where seg: "fullSchedule ?q = fullSchedule p @ seg"
    and dep: "\<forall>m\<in>set seg. deposit m = the (maxDepositConstraint ?q)"
    using segmentStep_schedule [of params sd evs ebm nxt p] by blast
  obtain a where a: "maxDepositConstraint ?q = Some a"
    by (simp add: segmentStep_simps)
  have le: "\<forall>m\<in>set (fullSchedule p). a \<le> deposit m"
  proof (cases "maxDepositConstraint p")
    case None
    with Cons.prems(2) show ?thesis by simp
  next
    case (Some c)
    with a have "a \<le> c" using actualDepositOf_le by (auto simp: segmentStep_simps)
    with Some Cons.prems(2) show ?thesis by fastforce
  qed
  have 1: "sorted_wrt (\<lambda>x y. deposit y \<le> deposit x) (fullSchedule ?q)"
    using Cons.prems(1) dep a le sorted_wrt_const_deposit [of seg a]
    by (simp add: seg sorted_wrt_append)
  have 2: "case maxDepositConstraint ?q of None \<Rightarrow> fullSchedule ?q = []
         | Some c \<Rightarrow> \<forall>m\<in>set (fullSchedule ?q). c \<le> deposit m"
    using a dep le by (auto simp: seg)
  show ?case
    using Cons.IH [OF 1 2] by simp
qed

lemma segment_fold_monthIndex:
  assumes "sorted ms" "distinct ms" "\<forall>m\<in>set ms. currentMonth p \<le> m" "0 \<le> currentMonth p"
    and "map monthIndex (fullSchedule p) = [0..currentMonth p - 1]"
  shows "map monthIndex (fullSchedule (fold (\<lambda>nxt p. segmentStep params sd evs ebm nxt p) ms p))
           = [0..(if ms = [] then currentMonth p - 1 else last ms)]"
  using assms
proof (induction ms arbitrary: p)
  case Nil
  then show ?case by simp
next
  case (Cons nxt ms)
  let ?q = "segmentStep params sd evs ebm nxt p"
  obtain seg where seg: "fullSchedule ?q = fullSchedule p @ seg"
    and idx: "map monthIndex seg = map (\<lambda>j. currentMonth p + int j) [0..<nat (nxt - currentMonth p + 1)]"
    using segmentStep_schedule [of params sd evs ebm nxt p] by blast
  have le: "currentMonth p \<le> nxt" using Cons.prems(3) by simp
  then have "map monthIndex seg = [currentMonth p..nxt]"
    by (simp add: idx map_upt_upto)
  then have 5: "map monthIndex (fullSchedule ?q) = [0..currentMonth ?q - 1]"
    using Cons.prems(4,5) le upto_split1 [of 0 "currentMonth p" nxt]
    by (simp add: seg segmentStep_simps)
  have 1: "sorted ms" and 2: "distinct ms" using Cons.prems(1,2) by simp_all
  have 3: "\<forall>m\<in>set ms. currentMonth ?q \<le> m"
  proof
    fix m assume m: "m \<in> set ms"
    with Cons.prems(1,2) have "nxt \<le> m" "nxt \<noteq> m" by auto
    then show "currentMonth ?q \<le> m" by (simp add: segmentStep_simps)
  qed
  have 4: "0 \<le> currentMonth ?q" using Cons.prems(4) le by (simp add: segmentStep_simps)
  show ?case
    using Cons.IH [OF 1 2 3 4 5] by (simp add: segmentStep_simps)
qed

lemma sorted_last_Max:
  "sorted (xs::int list) \<Longrightarrow> xs \<noteq> [] \<Longrightarrow> last xs = Max (set xs)"
proof (induction xs)
  case Nil
  then show ?case by simp
next
  case (Cons x xs)
  show ?case
  proof (cases "xs = []")
    case True
    then show ?thesis by simp
  next
    case False
    with Cons have "last xs = Max (set xs)" by simp
    moreover have "x \<le> Max (set xs)"
      using Cons.prems(1) False by (simp add: Max_ge_iff) (meson last_in_set)
    ultimately show ?thesis using False by (simp add: max_def)
  qed
qed

lemma segmentLoop_monthIndex:
  assumes "evs \<noteq> []" "\<forall>e\<in>set evs. 0 \<le> monthOffset e"
  shows "map monthIndex (fullSchedule (segmentLoop params evs)) = [0..Max (monthOffset ` set evs)]"
proof -
  let ?ms = "sort (map fst (groupByMonth evs))"
  have s: "set ?ms = monthOffset ` set evs"
    using groupByMonth_keys(2) [of evs] by simp
  have ne: "?ms \<noteq> []" using assms(1) s by (metis empty_is_image set_empty)
  have 1: "sorted ?ms" by simp
  have 2: "distinct ?ms" using groupByMonth_keys(1) [of evs] by simp
  have 3: "\<forall>m\<in>set ?ms. currentMonth (initPlan params) \<le> m"
    using assms(2) s by (auto simp: initPlan_def)
  have 4: "0 \<le> currentMonth (initPlan params)" by (simp add: initPlan_def)
  have 5: "map monthIndex (fullSchedule (initPlan params)) = [0..currentMonth (initPlan params) - 1]"
    by (simp add: initPlan_def)
  have "last ?ms = Max (monthOffset ` set evs)"
    using sorted_last_Max [OF 1 ne] s by simp
  then show ?thesis
    using segment_fold_monthIndex [OF 1 2 3 4 5, of params "NewDate (startDate params)" evs "groupByMonth evs"] ne
    by (simp add: segmentLoop_def Let_def)
qed

lemma segmentLoop_deposits:
  "sorted_wrt (\<lambda>x y. deposit y \<le> deposit x) (fullSchedule (segmentLoop params evs))"
  using segment_fold_deposits [of "initPlan params" params "NewDate (startDate params)" evs "groupByMonth evs" "sort (map fst (groupByMonth evs))"]
  by (simp add: segmentLoop_def Let_def initPlan_def)

lemma calculateSavingsPlan_schedule:
  "schedule (calculateSavingsPlan params events) =
     (if events = [] then [] else fullSchedule (segmentLoop params (sort_key monthOffset events)))"
proof -
  have "sort_key monthOffset events = [] \<longleftrightarrow> events = []"
    by (metis length_sort length_0_conv)
  then show ?thesis by (simp add: calculateSavingsPlan_def planOfSorted_def Let_def)
qed


subsection \<open>The binary search\<close>

lemma searchLoop_bracket:
  "l \<le> h \<Longrightarrow>
   (case searchLoop f k (l, h, h) of
      (l', h', r') \<Rightarrow>
        r' = h' \<and> h' - l' = (h - l) / 2 ^ k \<and> l \<le> l' \<and> l' \<le> h' \<and> h' \<le> h \<and>
        (l' = l \<or> f l') \<and> (h' = h \<or> \<not> f h'))"
proof (induction k arbitrary: l h)
  case 0
  then show ?case by simp
next
  case (Suc k)
  let ?mid = "(l + h) / 2"
  have m: "l \<le> ?mid" "?mid \<le> h" using Suc.prems by simp_all
  show ?case
  proof (cases "f ?mid")
    case True
    obtain l' h' r' where s: "searchLoop f k (?mid, h, h) = (l', h', r')"
      by (metis prod_cases3)
    have ih: "r' = h' \<and> h' - l' = (h - ?mid) / 2 ^ k \<and> ?mid \<le> l' \<and> l' \<le> h' \<and> h' \<le> h \<and>
        (l' = ?mid \<or> f l') \<and> (h' = h \<or> \<not> f h')"
      using Suc.IH [OF m(2)] by (simp add: s)
    have e: "(h - ?mid) / 2 ^ k = (h - l) / 2 ^ Suc k" by (simp add: field_simps)
    have "f l'" using ih True by metis
    moreover have "l \<le> l'" using ih m(1) by linarith
    moreover have "searchLoop f (Suc k) (l, h, h) = (l', h', r')"
      using True s by (simp add: Let_def)
    ultimately show ?thesis using ih e by simp
  next
    case False
    obtain l' h' r' where s: "searchLoop f k (l, ?mid, ?mid) = (l', h', r')"
      by (metis prod_cases3)
    have ih: "r' = h' \<and> h' - l' = (?mid - l) / 2 ^ k \<and> l \<le> l' \<and> l' \<le> h' \<and> h' \<le> ?mid \<and>
        (l' = l \<or> f l') \<and> (h' = ?mid \<or> \<not> f h')"
      using Suc.IH [OF m(1)] by (simp add: s)
    have e: "(?mid - l) / 2 ^ k = (h - l) / 2 ^ Suc k" by (simp add: field_simps)
    have "\<not> f h'" using ih False by metis
    moreover have "h' \<le> h" using ih m(2) by linarith
    moreover have "searchLoop f (Suc k) (l, h, h) = (l', h', r')"
      using False s by (simp add: Let_def)
    ultimately show ?thesis using ih e by simp
  qed
qed

lemma searchDeposit_bracket:
  "case searchDeposit sb scb sncb sd smi events params of
     (low, high, result) \<Rightarrow>
       result = high \<and> high - low = 1000000 / 2 ^ 20 \<and> 0 \<le> low \<and> low \<le> high \<and> high \<le> 1000000 \<and>
       (low = 0 \<or> failed (searchSim sb scb sncb sd smi events params low)) \<and>
       (high = 1000000 \<or> \<not> failed (searchSim sb scb sncb sd smi events params high))"
proof -
  have "(0::real) \<le> maxDepositCap" by (simp add: maxDepositCap_def)
  from searchLoop_bracket [OF this,
      where f = "\<lambda>mid. failed (searchSim sb scb sncb sd smi events params mid)" and k = 20]
  show ?thesis
    unfolding searchDeposit_def maxDepositCap_def
    by (simp split: prod.splits)
qed

lemma ceil10_bounds:
  fixes r :: real
  shows "r \<le> real_of_int \<lceil>r / 10\<rceil> * 10" "real_of_int \<lceil>r / 10\<rceil> * 10 < r + 10"
proof -
  have "r / 10 \<le> real_of_int \<lceil>r / 10\<rceil>" by (rule le_of_int_ceiling)
  then show "r \<le> real_of_int \<lceil>r / 10\<rceil> * 10" by linarith
  have "real_of_int \<lceil>r / 10\<rceil> < r / 10 + 1" by linarith
  then show "real_of_int \<lceil>r / 10\<rceil> * 10 < r + 10" by linarith
qed

subsection \<open>Evaluation on concrete inputs\<close>

lemma goalAt_simps [simp]:
  "monthOffset (goalAt m amount) = m" "targetAmount (goalAt m amount) = amount"
  by (simp_all add: goalAt_def)

lemma zeroRates_simps [simp]:
  "annualReturn (zeroRates c) = 0" "annualInflation (zeroRates c) = 0"
  "capitalGainsTax (zeroRates c) = 0" "initialCapital (zeroRates c) = c"
  by (simp_all add: zeroRates_def)

lemma getMonthlyRate_0 [simp]: "getMonthlyRate 0 = 0"
  by (simp add: getMonthlyRate_def)

lemma monthLoop_numeral:
  "monthLoop p evs d smi dep i (numeral n) v = monthLoop p evs d smi dep i (Suc (pred_numeral n)) v"
  by (simp add: numeral_eq_Suc)

lemmas sim_defs = runSimulationPeriod_def initVars_def monthBody_def handleEvents_def
  depositAndGrow_def processEvent_def grossNeeded_def realProfitRatio_def nominalProfitRatio_def
  targetNetNominal_def monthRecord_def groupByMonth_def pushEvent_def searchSim_def
  lastEventMonthOf_def Let_def

lemma covered_goal_never_fails:
  "0 \<le> mid \<Longrightarrow>
     \<not> failed (searchSim 1000 1000 1000 sd 0 [goalAt 0 500] (zeroRates 1000) mid)"
  by (simp add: sim_defs zeroRates_def goalAt_def)

lemma ceiling_resolution: "\<lceil>(1000000 / 2 ^ 20 / 10 :: real)\<rceil> = 1"
  by (rule ceiling_unique) simp_all

lemma covered_goal_solve:
  "solveRequiredDeposit 1000 1000 1000 sd 0 [goalAt 0 500] (zeroRates 1000) = 10"
proof -
  obtain low high result where
    s: "searchDeposit 1000 1000 1000 sd 0 [goalAt 0 500] (zeroRates 1000) = (low, high, result)"
    by (metis prod_cases3)
  have b: "result = high \<and> high - low = 1000000 / 2 ^ 20 \<and> 0 \<le> low \<and>
       (low = 0 \<or> failed (searchSim 1000 1000 1000 sd 0 [goalAt 0 500] (zeroRates 1000) low))"
    using searchDeposit_bracket [of 1000 1000 1000 sd 0 "[goalAt 0 500]" "zeroRates 1000"]
    by (simp add: s)
  then have "low = 0" using covered_goal_never_fails [of low sd] by blast
  with b have "result / 10 = 1000000 / 2 ^ 20 / 10" by simp
  then have "\<lceil>result / 10\<rceil> = 1" by (simp only: ceiling_resolution)
  then show ?thesis
    by (simp add: solveRequiredDeposit_def s)
qed

lemma huge_goal_always_fails:
  "1000001 \<le> t \<Longrightarrow> mid < 1000000 \<Longrightarrow>
     failed (searchSim 0 0 0 sd 0 [goalAt 0 t] (zeroRates 0) mid)"
  by (simp add: sim_defs zeroRates_def goalAt_def)

lemma huge_goal_solve:
  assumes "1000001 \<le> t"
  shows "solveRequiredDeposit 0 0 0 sd 0 [goalAt 0 t] (zeroRates 0) = 1000000"
proof -
  obtain low high result where
    s: "searchDeposit 0 0 0 sd 0 [goalAt 0 t] (zeroRates 0) = (low, high, result)"
    by (metis prod_cases3)
  have b: "result = high \<and> high \<le> 1000000 \<and>
       (high = 1000000 \<or> \<not> failed (searchSim 0 0 0 sd 0 [goalAt 0 t] (zeroRates 0) high))"
    using searchDeposit_bracket [of 0 0 0 sd 0 "[goalAt 0 t]" "zeroRates 0"]
    by (simp add: s)
  then have "high = 1000000"
    using huge_goal_always_fails [OF assms, of high sd] by fastforce
  with b have "result = 1000000" by simp
  then show ?thesis
    by (simp add: solveRequiredDeposit_def s)
qed


lemma uncovered_goal_fails_iff:
  "failed (searchSim 0 0 0 sd 0 [goalAt 0 500] (zeroRates 0) d) \<longleftrightarrow> d < 499"
  by (simp add: sim_defs zeroRates_def goalAt_def) 

lemma solveRequiredDeposit_search:
  assumes "events \<noteq> []"
    and "searchDeposit sb scb sncb sd smi events params = (low, high, result)"
  shows "solveRequiredDeposit sb scb sncb sd smi events params = real_of_int \<lceil>high / 10\<rceil> * 10"
    and "result = high" and "high - low = 1000000 / 2 ^ 20" and "0 \<le> low" and "high \<le> 1000000"
    and "low = 0 \<or> failed (searchSim sb scb sncb sd smi events params low)"
    and "high = 1000000 \<or> \<not> failed (searchSim sb scb sncb sd smi events params high)"
  using searchDeposit_bracket [of sb scb sncb sd smi events params] assms
  by (simp_all add: solveRequiredDeposit_def)

subsection \<open>Withdrawals\<close>

lemma processEvent_fields:
  "balance (processEvent params i v e) = balance v - grossNeeded params i v e"
  "realCostBasis (processEvent params i v e) =
     (if balance v > 0 then realCostBasis v * (1 - grossNeeded params i v e / balance v) else 0)"
  "nominalCostBasis (processEvent params i v e) =
     (if balance v > 0 then nominalCostBasis v * (1 - grossNeeded params i v e / balance v) else 0)"
  "failedV (processEvent params i v e) =
     (failedV v \<or> (balance v \<le> 0 \<and> grossNeeded params i v e > 0))"
  "monthWithdrawalGross (processEvent params i v e) =
     monthWithdrawalGross v + grossNeeded params i v e"
  "monthWithdrawalNet (processEvent params i v e) =
     monthWithdrawalNet v + targetNetNominal params i e"
  "monthTaxPaid (processEvent params i v e) =
     monthTaxPaid v + (grossNeeded params i v e - targetNetNominal params i e)"
  by (auto simp: processEvent_def Let_def)

lemma depositAndGrow_fields:
  "balance (depositAndGrow params dep v) =
     (balance v + dep) * (1 + getMonthlyRate (annualReturn params))"
  "realCostBasis (depositAndGrow params dep v) =
     (realCostBasis v + dep) * (1 + getMonthlyRate (annualInflation params))"
  "nominalCostBasis (depositAndGrow params dep v) = nominalCostBasis v + dep"
  "failedV (depositAndGrow params dep v) = failedV v"
  "monthWithdrawalGross (depositAndGrow params dep v) = 0"
  "monthWithdrawalNet (depositAndGrow params dep v) = 0"
  "monthTaxPaid (depositAndGrow params dep v) = 0"
  by (simp_all add: depositAndGrow_def Let_def)

lemma grossNeeded_zero_tax:
  "capitalGainsTax params = 0 \<Longrightarrow> grossNeeded params i v e = targetNetNominal params i e"
  by (simp add: grossNeeded_def Let_def)

lemma fold_processEvent_net:
  "monthWithdrawalNet (fold (\<lambda>event w. processEvent params i w event) es v) =
     monthWithdrawalNet v + (\<Sum>e\<leftarrow>es. targetNetNominal params i e)"
  by (induction es arbitrary: v) (simp_all add: processEvent_fields)

lemma fold_processEvent_zero_tax:
  assumes "capitalGainsTax params = 0"
  shows "monthWithdrawalGross (fold (\<lambda>event w. processEvent params i w event) es v) =
           monthWithdrawalGross v + (\<Sum>e\<leftarrow>es. targetNetNominal params i e) \<and>
         monthTaxPaid (fold (\<lambda>event w. processEvent params i w event) es v) = monthTaxPaid v"
  by (induction es arbitrary: v) (simp_all add: processEvent_fields grossNeeded_zero_tax [OF assms])

lemma handleEvents_net:
  "monthWithdrawalNet (handleEvents params i evs v) =
     monthWithdrawalNet v + (\<Sum>e\<leftarrow>eventsDue evs i. targetNetNominal params i e)"
  by (simp add: handleEvents_def eventsDue_def fold_processEvent_net split: option.splits)

lemma handleEvents_zero_tax:
  assumes "capitalGainsTax params = 0"
  shows "monthWithdrawalGross (handleEvents params i evs v) =
           monthWithdrawalGross v + (\<Sum>e\<leftarrow>eventsDue evs i. targetNetNominal params i e)"
    and "monthTaxPaid (handleEvents params i evs v) = monthTaxPaid v"
  by (simp_all add: handleEvents_def eventsDue_def fold_processEvent_zero_tax [OF assms]
        split: option.splits)

text \<open>A property of the pushed record carries over to the whole schedule of the loop.\<close>

lemma monthLoop_records:
  assumes "\<And>i v. Q (monthRecord sd (smi + i) i dep (balance v)
                      (handleEvents params (smi + i) evs (depositAndGrow params dep v)))"
    and "\<forall>m\<in>set (scheduleV v). Q m"
  shows "\<forall>m\<in>set (scheduleV (monthLoop params evs sd smi dep i k v)). Q m"
  using assms(2)
proof (induction k arbitrary: i v)
  case 0
  then show ?case by simp
next
  case (Suc k)
  have "\<forall>m\<in>set (scheduleV (monthBody params evs sd smi dep i v)). Q m"
    using Suc.prems assms(1) by (simp add: monthBody_scheduleV)
  from Suc.IH [OF this] show ?case by simp
qed

lemma runSimulationPeriod_records:
  assumes "\<And>i v. Q (monthRecord sd (smi + i) i dep (balance v)
                      (handleEvents params (smi + i) evs (depositAndGrow params dep v)))"
  shows "\<forall>m\<in>set (scheduleP (runSimulationPeriod sb scb sncb sd smi dur dep params evs)). Q m"
  using monthLoop_records [of Q sd smi dep params evs "initVars sb scb sncb" 0 "nat dur", OF assms]
  by (simp add: runSimulationPeriod_def Let_def initVars_def)

lemma goalNamed_simps [simp]:
  "monthOffset (goalNamed ident m amount) = m" "targetAmount (goalNamed ident m amount) = amount"
  by (simp_all add: goalNamed_def)

lemma getMonthlyRate_doubling: "getMonthlyRate 409500 = 1"
proof -
  have "(4096::real) = 2 powr 12" by simp
  then have "(4096::real) powr (1 / 12) = (2 powr 12) powr (1 / 12)" by simp
  also have "\<dots> = 2" by (simp only: powr_powr) simp
  finally show ?thesis by (simp add: getMonthlyRate_def)
qed

lemma doublingPrices_simps [simp]:
  "annualReturn doublingPrices = 0" "annualInflation doublingPrices = 409500"
  "capitalGainsTax doublingPrices = 0"
  by (simp_all add: doublingPrices_def)

lemma groupByMonth_same_month:
  "groupByMonth [goalNamed a m x, goalNamed b m y] = [(m, [goalNamed a m x, goalNamed b m y])]"
  by (simp add: groupByMonth_def pushEvent_def)

lemma map_cong_records:
  "\<forall>m\<in>set xs. f m = g (h m) \<Longrightarrow> map f xs = map g (map h xs)"
  by (induction xs) simp_all

subsection \<open>Monotonicity of the search in the goal's amount\<close>

lemma searchLoop_mono:
  assumes "\<And>m. f1 m \<Longrightarrow> f2 m"
  shows "l1 \<le> h1 \<Longrightarrow> l2 \<le> h2 \<Longrightarrow> (l1 = l2 \<and> h1 = h2) \<or> h1 \<le> l2 \<Longrightarrow>
     fst (snd (searchLoop f1 k (l1, h1, h1))) \<le> fst (snd (searchLoop f2 k (l2, h2, h2)))"
proof (induction k arbitrary: l1 h1 l2 h2)
  case 0
  then show ?case by auto
next
  case (Suc k)
  let ?m1 = "(l1 + h1) / 2" and ?m2 = "(l2 + h2) / 2"
  have m1: "l1 \<le> ?m1" "?m1 \<le> h1" using Suc.prems(1) by simp_all
  have m2: "l2 \<le> ?m2" "?m2 \<le> h2" using Suc.prems(2) by simp_all
  show ?case
  proof (cases "f1 ?m1")
    case f1: True
    show ?thesis
    proof (cases "f2 ?m2")
      case f2: True
      have "(?m1 = ?m2 \<and> h1 = h2) \<or> h1 \<le> ?m2"
        using Suc.prems(3) m2 by auto
      from Suc.IH [OF m1(2) m2(2) this] show ?thesis
        using f1 f2 by (simp add: Let_def)
    next
      case f2: False
      have "l1 = l2 \<and> h1 = h2 \<Longrightarrow> False" using f1 f2 assms by auto
      then have "h1 \<le> l2" using Suc.prems(3) by blast
      then have "(?m1 = l2 \<and> h1 = ?m2) \<or> h1 \<le> l2" by simp
      from Suc.IH [OF m1(2) m2(1) this] show ?thesis
        using f1 f2 by (simp add: Let_def)
    qed
  next
    case f1: False
    show ?thesis
    proof (cases "f2 ?m2")
      case f2: True
      have "(l1 = ?m2 \<and> ?m1 = h2) \<or> ?m1 \<le> ?m2"
        using Suc.prems(3) m1 m2 by auto
      from Suc.IH [OF m1(1) m2(2) this] show ?thesis
        using f1 f2 by (simp add: Let_def)
    next
      case f2: False
      have "(l1 = l2 \<and> ?m1 = ?m2) \<or> ?m1 \<le> l2"
        using Suc.prems(3) m1 by auto
      from Suc.IH [OF m1(1) m2(1) this] show ?thesis
        using f1 f2 by (simp add: Let_def)
    qed
  qed
qed

lemma inflationFactor_nonneg:
  "0 \<le> (1 + getMonthlyRate a) powi i"
  by (simp add: getMonthlyRate_def)

lemma pos_product_factor:
  fixes t c :: real
  shows "0 < t * c \<Longrightarrow> 0 \<le> t \<Longrightarrow> 0 < c"
  by (auto simp: zero_less_mult_iff)

lemma grossNeeded_mono_target:
  assumes "0 \<le> targetAmount e1" "targetAmount e1 \<le> targetAmount e2"
  shows "0 < grossNeeded params i w e1 \<Longrightarrow> grossNeeded params i w e1 \<le> grossNeeded params i w e2"
    and "balance w \<le> 0 \<Longrightarrow> 0 \<le> grossNeeded params i w e2"
proof -
  define F where "F = (1 + getMonthlyRate (annualInflation params)) powi i"
  define c where "c = F / (1 - realProfitRatio w * (capitalGainsTax params / 100))"
  have g: "grossNeeded params i w e = targetAmount e * c" for e
    by (simp add: grossNeeded_def targetNetNominal_def Let_def c_def F_def)
  have F: "0 \<le> F" unfolding F_def by (rule inflationFactor_nonneg)
  show "grossNeeded params i w e1 \<le> grossNeeded params i w e2" if "0 < grossNeeded params i w e1"
  proof -
    have "0 < targetAmount e1 * c" using that by (simp only: g)
    then have "0 < c" using assms(1) by (rule pos_product_factor)
    then have "targetAmount e1 * c \<le> targetAmount e2 * c"
      using assms(2) by (simp add: mult_right_mono)
    then show ?thesis by (simp only: g)
  qed
  show "0 \<le> grossNeeded params i w e2" if "balance w \<le> 0"
  proof -
    have "c = F" using that by (simp add: c_def realProfitRatio_def)
    moreover have "0 \<le> targetAmount e2" using assms by simp
    ultimately have "0 \<le> targetAmount e2 * c" using F by simp
    then show ?thesis by (simp only: g)
  qed
qed

lemma grossNeeded_preWithdrawalBalanceV [simp]:
  "grossNeeded params i (w\<lparr>preWithdrawalBalanceV := x\<rparr>) e = grossNeeded params i w e"
  by (simp add: grossNeeded_def realProfitRatio_def Let_def)

lemma monthBody_no_events:
  "idx \<noteq> m \<Longrightarrow> smi + i = idx \<Longrightarrow>
     monthBody params [(m, es1)] sd smi dep i v = monthBody params [(m, es2)] sd smi dep i v"
  by (simp add: monthBody_def handleEvents_def Let_def)

lemma monthBody_failed_single:
  "failedV (monthBody params [(m, [e])] sd smi dep i v) \<longleftrightarrow>
     (if smi + i = m
      then failedV v \<or>
           (balance (depositAndGrow params dep v) \<le> 0 \<and>
              grossNeeded params m (depositAndGrow params dep v) e > 0) \<or>
           balance (depositAndGrow params dep v) - grossNeeded params m (depositAndGrow params dep v) e < - 1
      else failedV v \<or> balance (depositAndGrow params dep v) < - 1)"
  by (auto simp: monthBody_def handleEvents_def Let_def processEvent_fields depositAndGrow_fields)

lemma monthBody_failed_mono:
  assumes "0 \<le> targetAmount e1" "targetAmount e1 \<le> targetAmount e2"
    and f: "failedV (monthBody params [(m, [e1])] sd smi dep i v)"
  shows "failedV (monthBody params [(m, [e2])] sd smi dep i v)"
proof (cases "smi + i = m")
  case False
  with f show ?thesis by (simp add: monthBody_failed_single)
next
  case True
  define b where "b = balance (depositAndGrow params dep v)"
  define g1 where "g1 = grossNeeded params m (depositAndGrow params dep v) e1"
  define g2 where "g2 = grossNeeded params m (depositAndGrow params dep v) e2"
  have a1: "0 < g1 \<Longrightarrow> g1 \<le> g2"
    unfolding g1_def g2_def by (rule grossNeeded_mono_target(1) [OF assms(1,2)])
  have a2: "b \<le> 0 \<Longrightarrow> 0 \<le> g2"
    unfolding b_def g2_def by (rule grossNeeded_mono_target(2) [OF assms(1,2)])
  from f True have "failedV v \<or> (b \<le> 0 \<and> g1 > 0) \<or> b - g1 < - 1"
    by (simp add: monthBody_failed_single b_def g1_def)
  then have "failedV v \<or> (b \<le> 0 \<and> g2 > 0) \<or> b - g2 < - 1"
  proof (elim disjE)
    assume "failedV v"
    then show ?thesis by simp
  next
    assume "b \<le> 0 \<and> g1 > 0"
    with a1 show ?thesis by auto
  next
    assume l: "b - g1 < - 1"
    show ?thesis
    proof (cases "0 < g1")
      case True
      with a1 l show ?thesis by auto
    next
      case False
      with l have "b < - 1" by simp
      with a2 show ?thesis by auto
    qed
  qed
  with True show ?thesis
    by (simp add: monthBody_failed_single b_def g2_def)
qed

lemma monthLoop_failed_mono:
  assumes "0 \<le> targetAmount e1" "targetAmount e1 \<le> targetAmount e2"
  shows "k = 0 \<or> smi + i + int k \<le> m + 1 \<Longrightarrow>
         failedV (monthLoop params [(m, [e1])] sd smi dep i k v) \<Longrightarrow>
         failedV (monthLoop params [(m, [e2])] sd smi dep i k v)"
proof (induction k arbitrary: i v)
  case 0
  then show ?case by simp
next
  case (Suc k)
  from Suc.prems(1) have le: "smi + i + int k \<le> m" by simp
  show ?case
  proof (cases "smi + i = m")
    case True
    with le have "k = 0" by simp
    with Suc.prems(2) show ?thesis
      using monthBody_failed_mono [OF assms] by simp
  next
    case False
    then have e: "monthBody params [(m, [e1])] sd smi dep i v = monthBody params [(m, [e2])] sd smi dep i v"
      using monthBody_no_events [of "smi + i" m smi i] by simp
    have "k = 0 \<or> smi + (i + 1) + int k \<le> m + 1" using le by simp
    from Suc.IH [OF this] Suc.prems(2) show ?thesis by (simp add: e)
  qed
qed

lemma searchSim_single:
  "searchSim sb scb sncb sd smi [e] params d =
     runSimulationPeriod sb scb sncb sd smi (monthOffset e - smi + 1) d params [(monthOffset e, [e])]"
  by (simp add: searchSim_def lastEventMonthOf_def groupByMonth_def pushEvent_def Let_def)

lemma searchSim_failed_mono:
  assumes "monthOffset e1 = monthOffset e2" "0 \<le> targetAmount e1" "targetAmount e1 \<le> targetAmount e2"
  shows "failed (searchSim sb scb sncb sd smi [e1] params d) \<Longrightarrow>
         failed (searchSim sb scb sncb sd smi [e2] params d)"
proof -
  have "nat (monthOffset e2 - smi + 1) = 0 \<or>
        smi + 0 + int (nat (monthOffset e2 - smi + 1)) \<le> monthOffset e2 + 1" by auto
  from monthLoop_failed_mono [OF assms(2,3) this, of params sd d "initVars sb scb sncb"]
  show "failed (searchSim sb scb sncb sd smi [e1] params d) \<Longrightarrow>
         failed (searchSim sb scb sncb sd smi [e2] params d)"
    by (simp add: searchSim_single runSimulationPeriod_def Let_def assms(1))
qed

lemma getMonthlyRate_wipeout: "getMonthlyRate (- 100) = - 1"
  by (simp add: getMonthlyRate_def)

lemma overTaxed_simps [simp]:
  "annualReturn overTaxed = 0" "annualInflation overTaxed = - 100"
  "capitalGainsTax overTaxed = 200"
  by (simp_all add: overTaxed_def)

lemma overTaxed_refund_fails:
  "0 < d \<Longrightarrow> d < 1000000 \<Longrightarrow>
     failed (searchSim 0 0 0 sd 0 [goalAt 0 (- 10000000)] overTaxed d)"
  by (simp add: searchSim_single runSimulationPeriod_def initVars_def monthBody_failed_single
        depositAndGrow_fields grossNeeded_def realProfitRatio_def targetNetNominal_def
        getMonthlyRate_wipeout Let_def)

lemma overTaxed_goal_never_fails:
  "0 < d \<Longrightarrow> \<not> failed (searchSim 0 0 0 sd 0 [goalAt 0 1000] overTaxed d)"
  by (simp add: searchSim_single runSimulationPeriod_def initVars_def monthBody_failed_single
        depositAndGrow_fields grossNeeded_def realProfitRatio_def targetNetNominal_def
        getMonthlyRate_wipeout Let_def)

lemma overTaxed_refund_solve:
  "solveRequiredDeposit 0 0 0 sd 0 [goalAt 0 (- 10000000)] overTaxed = 1000000"
proof -
  obtain low high result where
    s: "searchDeposit 0 0 0 sd 0 [goalAt 0 (- 10000000)] overTaxed = (low, high, result)"
    by (metis prod_cases3)
  note b = solveRequiredDeposit_search [OF _ s]
  have "0 < high" using b(3,4) by simp
  then have "high = 1000000"
    using b(5,7) overTaxed_refund_fails [of high sd] by fastforce
  then show ?thesis using b(1) by simp
qed

lemma overTaxed_goal_solve:
  "solveRequiredDeposit 0 0 0 sd 0 [goalAt 0 1000] overTaxed = 10"
proof -
  obtain low high result where
    s: "searchDeposit 0 0 0 sd 0 [goalAt 0 1000] overTaxed = (low, high, result)"
    by (metis prod_cases3)
  note b = solveRequiredDeposit_search [OF _ s]
  have "low = 0"
    using b(4,6) overTaxed_goal_never_fails [of low sd] by fastforce
  with b(3) have "high / 10 = 1000000 / 2 ^ 20 / 10" by simp
  then have "\<lceil>high / 10\<rceil> = 1" by (simp only: ceiling_resolution)
  then show ?thesis using b(1) by simp
qed

subsection \<open>The cost bases and the balance\<close>

lemma getMonthlyRate_nonneg: "0 \<le> a \<Longrightarrow> 0 \<le> getMonthlyRate a"
  using ge_one_powr_ge_zero [of "1 + a / 100" "1 / 12"] by (simp add: getMonthlyRate_def)

lemma getMonthlyRate_pos: "0 < a \<Longrightarrow> 0 < getMonthlyRate a"
  using gr_one_powr [of "1 + a / 100" "1 / 12"] by (simp add: getMonthlyRate_def)

lemma getMonthlyRate_mono: "- 100 \<le> a \<Longrightarrow> a \<le> b \<Longrightarrow> getMonthlyRate a \<le> getMonthlyRate b"
  using powr_mono2 [of "1 / 12" "1 + a / 100" "1 + b / 100"] by (simp add: getMonthlyRate_def)

lemma one_plus_rate_nonneg: "0 \<le> 1 + getMonthlyRate a"
  by (simp add: getMonthlyRate_def)

lemma processEvent_inv:
  assumes "accountInv r v"
  shows "accountInv r (processEvent params i v e)"
proof -
  define g where "g = grossNeeded params i v e"
  define b where "b = balance v"
  show ?thesis
  proof (cases "0 < b")
    case True
    have inv: "nominalCostBasis v \<le> b" "r \<longrightarrow> realCostBasis v \<le> b"
      using assms True by (simp_all add: accountInv_def b_def)
    define f where "f = 1 - g / b"
    have bf: "b * f = b - g" using True by (simp add: f_def field_simps)
    have "nominalCostBasis v * f \<le> b - g \<and> (r \<longrightarrow> realCostBasis v * f \<le> b - g)"
      if "0 \<le> b - g"
    proof -
      have f: "0 \<le> f" using that True by (simp add: f_def)
      have "nominalCostBasis v * f \<le> b * f" using inv(1) f by (rule mult_right_mono)
      moreover have "r \<longrightarrow> realCostBasis v * f \<le> b * f"
        using inv(2) f by (auto intro: mult_right_mono)
      ultimately show ?thesis by (simp add: bf)
    qed
    then show ?thesis
      using True
      by (simp add: accountInv_def processEvent_fields g_def [symmetric] b_def [symmetric] f_def)
  next
    case False
    then show ?thesis
      by (simp add: accountInv_def processEvent_fields b_def)
  qed
qed

lemma fold_processEvent_inv:
  "accountInv r v \<Longrightarrow> accountInv r (fold (\<lambda>event w. processEvent params i w event) es v)"
  by (induction es arbitrary: v) (simp_all add: processEvent_inv)

lemma accountInv_preWithdrawalBalanceV [simp]:
  "accountInv r (v\<lparr>preWithdrawalBalanceV := x\<rparr>) = accountInv r v"
  by (simp add: accountInv_def)

lemma accountInv_bookkeeping [simp]:
  "accountInv r (v\<lparr>scheduleV := s, failedV := f\<rparr>) = accountInv r v"
  by (simp add: accountInv_def)

lemma handleEvents_inv:
  "accountInv r v \<Longrightarrow> accountInv r (handleEvents params i evs v)"
  by (simp add: handleEvents_def fold_processEvent_inv split: option.splits)

lemma depositAndGrow_inv:
  assumes "0 \<le> annualReturn params" "0 \<le> dep"
    and "r \<longrightarrow> getMonthlyRate (annualInflation params) \<le> getMonthlyRate (annualReturn params)"
    and "0 \<le> balance v" and "accountInv r v"
  shows "accountInv r (depositAndGrow params dep v)"
proof -
  define mr where "mr = getMonthlyRate (annualReturn params)"
  define mi where "mi = getMonthlyRate (annualInflation params)"
  define b where "b = balance v + dep"
  have inv: "nominalCostBasis v \<le> balance v" "r \<longrightarrow> realCostBasis v \<le> balance v"
    using assms(4,5) by (simp_all add: accountInv_def)
  have mr: "0 \<le> mr" unfolding mr_def by (rule getMonthlyRate_nonneg [OF assms(1)])
  have mi: "0 \<le> 1 + mi" unfolding mi_def by (rule one_plus_rate_nonneg)
  have b: "0 \<le> b" using assms(2,4) by (simp add: b_def)
  have g: "b \<le> b * (1 + mr)" using b mr by (simp add: mult_le_cancel_left1)
  have 3: "nominalCostBasis v + dep \<le> b * (1 + mr)" using inv(1) g by (simp add: b_def)
  have 4: "(realCostBasis v + dep) * (1 + mi) \<le> b * (1 + mr)" if r
  proof -
    have "mi \<le> mr" using that assms(3) unfolding mi_def mr_def by simp
    then have "b * (1 + mi) \<le> b * (1 + mr)" using b by (simp add: mult_left_mono)
    moreover have "(realCostBasis v + dep) * (1 + mi) \<le> b * (1 + mi)"
      using that inv(2) mi by (simp add: b_def mult_right_mono)
    ultimately show ?thesis by simp
  qed
  show ?thesis
    using 3 4
    by (simp add: accountInv_def depositAndGrow_fields mr_def [symmetric] mi_def [symmetric] b_def [symmetric])
qed

lemma monthLoop_schedule_grows:
  "\<exists>ys. scheduleV (monthLoop params evs sd smi dep i k v) = scheduleV v @ ys"
proof (induction k arbitrary: i v)
  case 0
  show ?case by simp
next
  case (Suc k)
  obtain ys where "scheduleV (monthLoop params evs sd smi dep (i + 1) k
        (monthBody params evs sd smi dep i v)) =
      scheduleV (monthBody params evs sd smi dep i v) @ ys"
    using Suc.IH by blast
  then show ?case by (simp add: monthBody_scheduleV)
qed

lemma monthBody_balance:
  "balance (monthBody params evs sd smi dep i v) =
     balance (handleEvents params (smi + i) evs (depositAndGrow params dep v))"
  "realCostBasis (monthBody params evs sd smi dep i v) =
     realCostBasis (handleEvents params (smi + i) evs (depositAndGrow params dep v))"
  by (simp_all add: monthBody_def Let_def)

lemma monthBody_inv:
  assumes "0 \<le> annualReturn params" "0 \<le> dep"
    and "r \<longrightarrow> getMonthlyRate (annualInflation params) \<le> getMonthlyRate (annualReturn params)"
    and "0 \<le> balance v" and "accountInv r v"
  shows "accountInv r (monthBody params evs sd smi dep i v)"
proof -
  have "accountInv r (handleEvents params (smi + i) evs (depositAndGrow params dep v))"
    by (rule handleEvents_inv) (rule depositAndGrow_inv [OF assms])
  then show ?thesis by (simp add: monthBody_def Let_def)
qed

lemma monthLoop_inv:
  assumes "0 \<le> annualReturn params" "0 \<le> dep"
    and "r \<longrightarrow> getMonthlyRate (annualInflation params) \<le> getMonthlyRate (annualReturn params)"
  shows "0 \<le> balance v \<Longrightarrow> accountInv r v \<Longrightarrow>
         (r \<longrightarrow> (\<forall>m\<in>set (scheduleV v). costBasis m \<le> balanceEnd m)) \<Longrightarrow>
         \<forall>m\<in>set (scheduleV (monthLoop params evs sd smi dep i k v)). 0 \<le> balanceEnd m \<Longrightarrow>
         0 \<le> balance (monthLoop params evs sd smi dep i k v) \<and>
         accountInv r (monthLoop params evs sd smi dep i k v) \<and>
         (r \<longrightarrow> (\<forall>m\<in>set (scheduleV (monthLoop params evs sd smi dep i k v)).
                  costBasis m \<le> balanceEnd m))"
proof (induction k arbitrary: i v)
  case 0
  then show ?case by simp
next
  case (Suc k)
  let ?v1 = "monthBody params evs sd smi dep i v"
  let ?w = "handleEvents params (smi + i) evs (depositAndGrow params dep v)"
  let ?rec = "monthRecord sd (smi + i) i dep (balance v) ?w"
  obtain ys where "scheduleV (monthLoop params evs sd smi dep (i + 1) k ?v1) = scheduleV ?v1 @ ys"
    using monthLoop_schedule_grows by blast
  then have "?rec \<in> set (scheduleV (monthLoop params evs sd smi dep i (Suc k) v))"
    by (simp add: monthBody_scheduleV)
  with Suc.prems(4) have "0 \<le> balanceEnd ?rec" by blast
  then have b: "0 \<le> balance ?v1" by (simp add: monthBody_balance)
  have inv: "accountInv r ?v1"
    by (rule monthBody_inv [OF assms Suc.prems(1,2)])
  with b have "r \<longrightarrow> costBasis ?rec \<le> balanceEnd ?rec"
    by (simp add: accountInv_def monthBody_balance)
  with Suc.prems(3) have recs: "r \<longrightarrow> (\<forall>m\<in>set (scheduleV ?v1). costBasis m \<le> balanceEnd m)"
    by (auto simp: monthBody_scheduleV)
  from Suc.IH [OF b inv recs] Suc.prems(4) show ?case by simp
qed

lemma runSimulationPeriod_inv:
  assumes "0 \<le> annualReturn params" "0 \<le> dep"
    and "r \<longrightarrow> getMonthlyRate (annualInflation params) \<le> getMonthlyRate (annualReturn params)"
    and "0 \<le> sb" "sncb \<le> sb" "r \<longrightarrow> scb \<le> sb"
    and "\<forall>m\<in>set (scheduleP (runSimulationPeriod sb scb sncb sd smi dur dep params evs)).
           0 \<le> balanceEnd m"
  shows "finalNominalCostBasis (runSimulationPeriod sb scb sncb sd smi dur dep params evs) \<le>
           finalBalanceP (runSimulationPeriod sb scb sncb sd smi dur dep params evs)"
    and "r \<longrightarrow>
         finalCostBasis (runSimulationPeriod sb scb sncb sd smi dur dep params evs) \<le>
           finalBalanceP (runSimulationPeriod sb scb sncb sd smi dur dep params evs) \<and>
         (\<forall>m\<in>set (scheduleP (runSimulationPeriod sb scb sncb sd smi dur dep params evs)).
            costBasis m \<le> balanceEnd m)"
proof -
  let ?init = "initVars sb scb sncb"
  let ?fin = "monthLoop params evs sd smi dep 0 (nat dur) ?init"
  have z: "0 \<le> balance ?init" using assms(4) by (simp add: initVars_def)
  have i: "accountInv r ?init" using assms(4-6) by (simp add: accountInv_def initVars_def)
  have s: "r \<longrightarrow> (\<forall>m\<in>set (scheduleV ?init). costBasis m \<le> balanceEnd m)"
    by (simp add: initVars_def)
  have b: "\<forall>m\<in>set (scheduleV ?fin). 0 \<le> balanceEnd m"
    using assms(7) by (simp add: runSimulationPeriod_def Let_def)
  note t = monthLoop_inv [OF assms(1-3) z i s b]
  show "finalNominalCostBasis (runSimulationPeriod sb scb sncb sd smi dur dep params evs) \<le>
           finalBalanceP (runSimulationPeriod sb scb sncb sd smi dur dep params evs)"
    using t by (simp add: runSimulationPeriod_def Let_def accountInv_def)
  show "r \<longrightarrow>
         finalCostBasis (runSimulationPeriod sb scb sncb sd smi dur dep params evs) \<le>
           finalBalanceP (runSimulationPeriod sb scb sncb sd smi dur dep params evs) \<and>
         (\<forall>m\<in>set (scheduleP (runSimulationPeriod sb scb sncb sd smi dur dep params evs)).
            costBasis m \<le> balanceEnd m)"
    using t by (simp add: runSimulationPeriod_def Let_def accountInv_def)
qed

lemma growing_simps [simp]:
  "annualReturn growing = 5" "annualInflation growing = 2" "capitalGainsTax growing = 25"
  by (simp_all add: growing_def)

lemma inflationOnly_simps [simp]:
  "annualReturn inflationOnly = 0" "annualInflation inflationOnly = 2"
  by (simp_all add: inflationOnly_def)

text \<open>A month with no event due leaves the account as the deposit and the growth made it.\<close>

lemma handleEvents_quiet:
  assumes "eventsDue evs idx = []"
  shows "balance (handleEvents params idx evs w) = balance w"
    and "realCostBasis (handleEvents params idx evs w) = realCostBasis w"
    and "nominalCostBasis (handleEvents params idx evs w) = nominalCostBasis w"
  using assms by (simp_all add: handleEvents_def eventsDue_def split: option.splits)

lemma monthLoop_quiet_nonneg:
  assumes "0 \<le> annualReturn params" "0 \<le> dep"
  shows "\<forall>j<k. eventsDue evs (smi + i + int j) = [] \<Longrightarrow> 0 \<le> balance v \<Longrightarrow>
         \<forall>m\<in>set (scheduleV v). 0 \<le> balanceEnd m \<Longrightarrow>
         \<forall>m\<in>set (scheduleV (monthLoop params evs sd smi dep i k v)). 0 \<le> balanceEnd m"
proof (induction k arbitrary: i v)
  case 0
  then show ?case by simp
next
  case (Suc k)
  let ?v1 = "monthBody params evs sd smi dep i v"
  have q: "eventsDue evs (smi + i) = []" using Suc.prems(1) by auto
  have "0 \<le> getMonthlyRate (annualReturn params)" by (rule getMonthlyRate_nonneg [OF assms(1)])
  then have "0 \<le> (balance v + dep) * (1 + getMonthlyRate (annualReturn params))"
    using Suc.prems(2) assms(2) by simp
  then have b: "0 \<le> balance ?v1"
    by (simp add: monthBody_balance handleEvents_quiet [OF q] depositAndGrow_fields)
  have s: "\<forall>m\<in>set (scheduleV ?v1). 0 \<le> balanceEnd m"
    using Suc.prems(3) b by (auto simp: monthBody_scheduleV monthBody_balance)
  have e: "smi + i + int (Suc j) = smi + (i + 1) + int j" for j by simp
  have n: "\<forall>j<k. eventsDue evs (smi + (i + 1) + int j) = []"
    using Suc.prems(1) unfolding e [symmetric] by auto
  from Suc.IH [OF n b s] show ?case by simp
qed

lemma runSimulationPeriod_quiet_nonneg:
  assumes "0 \<le> annualReturn params" "0 \<le> dep" "0 \<le> sb"
    and "\<forall>j<nat dur. eventsDue evs (smi + int j) = []"
  shows "\<forall>m\<in>set (scheduleP (runSimulationPeriod sb scb sncb sd smi dur dep params evs)).
           0 \<le> balanceEnd m"
  using monthLoop_quiet_nonneg [OF assms(1,2), of "nat dur" evs smi 0 "initVars sb scb sncb" sd]
    assms(3,4)
  by (simp add: runSimulationPeriod_def Let_def initVars_def)

text \<open>The same month in rounded arithmetic.\<close>

lemma getMonthlyRateR_nonneg:
  assumes "rounding rnd" and "\<forall>x. 1 \<le> x \<longrightarrow> 1 \<le> pw x (rnd (1 / 12))" and "0 \<le> a"
  shows "0 \<le> getMonthlyRateR rnd pw a"
proof -
  have m: "x \<le> y \<Longrightarrow> rnd x \<le> rnd y" for x y using assms(1) by (simp add: rounding_def mono_def)
  have z: "rnd 0 = 0" "rnd 1 = 1" using assms(1) by (simp_all add: rounding_def)
  have a: "0 \<le> rnd (a / 100)" using m [of 0 "a / 100"] assms(3) by (simp add: z)
  have "1 \<le> rnd (1 + rnd (a / 100))" using m [of 1 "1 + rnd (a / 100)"] a by (simp add: z)
  then have "1 \<le> pw (rnd (1 + rnd (a / 100))) (rnd (1 / 12))" using assms(2) by blast
  then show ?thesis
    using m [of 0 "pw (rnd (1 + rnd (a / 100))) (rnd (1 / 12)) - 1"]
    by (simp add: z getMonthlyRateR_def)
qed

lemma getMonthlyRateR_powr_mono:
  assumes "rounding rnd" and "0 \<le> a" and "a \<le> b"
  shows "getMonthlyRateR rnd (powr) a \<le> getMonthlyRateR rnd (powr) b"
proof -
  have m: "x \<le> y \<Longrightarrow> rnd x \<le> rnd y" for x y using assms(1) by (simp add: rounding_def mono_def)
  have z: "rnd 0 = 0" "rnd 1 = 1" using assms(1) by (simp_all add: rounding_def)
  have e: "0 \<le> rnd (1 / 12)" using m [of 0 "1 / 12"] by (simp add: z)
  have a: "0 \<le> rnd (a / 100)" using m [of 0 "a / 100"] assms(2) by (simp add: z)
  have l: "0 \<le> rnd (1 + rnd (a / 100))" using m [of 0 "1 + rnd (a / 100)"] a by (simp add: z)
  have "rnd (a / 100) \<le> rnd (b / 100)" using assms(3) by (intro m) simp
  then have u: "rnd (1 + rnd (a / 100)) \<le> rnd (1 + rnd (b / 100))" by (intro m) simp
  have "rnd (1 + rnd (a / 100)) powr rnd (1 / 12) \<le> rnd (1 + rnd (b / 100)) powr rnd (1 / 12)"
    by (rule powr_mono2 [OF e l u])
  then show ?thesis unfolding getMonthlyRateR_def by (intro m) simp
qed

lemma depositAndGrowR_exact:
  "depositAndGrowR (\<lambda>x. x) (powr) params dep v = depositAndGrow params dep v"
  by (simp add: depositAndGrowR_def depositAndGrow_def getMonthlyRateR_def getMonthlyRate_def)

lemma depositAndGrowR_fields:
  "balance (depositAndGrowR rnd pw params dep v) =
     rnd (rnd (balance v + dep) * rnd (1 + getMonthlyRateR rnd pw (annualReturn params)))"
  "realCostBasis (depositAndGrowR rnd pw params dep v) =
     rnd (rnd (realCostBasis v + dep) * rnd (1 + getMonthlyRateR rnd pw (annualInflation params)))"
  "nominalCostBasis (depositAndGrowR rnd pw params dep v) = rnd (nominalCostBasis v + dep)"
  by (simp_all add: depositAndGrowR_def Let_def)

lemma depositAndGrowR_inv:
  assumes "rounding rnd" and "0 \<le> getMonthlyRateR rnd pw (annualReturn params)" and "0 \<le> dep"
    and "r \<longrightarrow> - 1 \<le> getMonthlyRateR rnd pw (annualInflation params) \<and>
           getMonthlyRateR rnd pw (annualInflation params) \<le>
             getMonthlyRateR rnd pw (annualReturn params)"
    and "0 \<le> balance v" and "nominalCostBasis v \<le> balance v"
    and "r \<longrightarrow> realCostBasis v \<le> balance v"
  shows "0 \<le> balance (depositAndGrowR rnd pw params dep v)"
    and "nominalCostBasis (depositAndGrowR rnd pw params dep v) \<le>
           balance (depositAndGrowR rnd pw params dep v)"
    and "r \<longrightarrow> realCostBasis (depositAndGrowR rnd pw params dep v) \<le>
           balance (depositAndGrowR rnd pw params dep v)"
proof -
  define mr where "mr = getMonthlyRateR rnd pw (annualReturn params)"
  define mi where "mi = getMonthlyRateR rnd pw (annualInflation params)"
  define y where "y = rnd (balance v + dep)"
  have m: "a \<le> b \<Longrightarrow> rnd a \<le> rnd b" for a b using assms(1) by (simp add: rounding_def mono_def)
  have z: "rnd 0 = 0" "rnd 1 = 1" using assms(1) by (simp_all add: rounding_def)
  have i: "rnd y = y" using assms(1) by (simp add: rounding_def y_def)
  have y0: "0 \<le> y" using m [of 0 "balance v + dep"] assms(3,5) by (simp add: z y_def)
  have f: "1 \<le> rnd (1 + mr)" using m [of 1 "1 + mr"] assms(2) by (simp add: z mr_def)
  have "y \<le> y * rnd (1 + mr)" using y0 f by (simp add: mult_le_cancel_left1)
  then have "rnd y \<le> rnd (y * rnd (1 + mr))" by (rule m)
  then have g: "y \<le> rnd (y * rnd (1 + mr))" unfolding i .
  have n: "rnd (nominalCostBasis v + dep) \<le> y" unfolding y_def using assms(6) by (intro m) simp
  show "0 \<le> balance (depositAndGrowR rnd pw params dep v)"
    using y0 g by (simp add: depositAndGrowR_fields mr_def [symmetric] y_def [symmetric])
  show "nominalCostBasis (depositAndGrowR rnd pw params dep v) \<le>
           balance (depositAndGrowR rnd pw params dep v)"
    using n g by (simp add: depositAndGrowR_fields mr_def [symmetric] y_def [symmetric])
  show "r \<longrightarrow> realCostBasis (depositAndGrowR rnd pw params dep v) \<le>
           balance (depositAndGrowR rnd pw params dep v)"
  proof
    assume r
    have c: "rnd (realCostBasis v + dep) \<le> y" unfolding y_def using assms(7) \<open>r\<close> by (intro m) simp
    have fi: "0 \<le> rnd (1 + mi)" using m [of 0 "1 + mi"] assms(4) \<open>r\<close> by (simp add: z mi_def)
    have le: "rnd (1 + mi) \<le> rnd (1 + mr)"
      using assms(4) \<open>r\<close> unfolding mi_def mr_def by (intro m) simp
    have "rnd (realCostBasis v + dep) * rnd (1 + mi) \<le> y * rnd (1 + mi)"
      using c fi by (rule mult_right_mono)
    also have "\<dots> \<le> y * rnd (1 + mr)" using le y0 by (rule mult_left_mono)
    finally have "rnd (rnd (realCostBasis v + dep) * rnd (1 + mi)) \<le> rnd (y * rnd (1 + mr))"
      by (rule m)
    then show "realCostBasis (depositAndGrowR rnd pw params dep v) \<le>
           balance (depositAndGrowR rnd pw params dep v)"
      by (simp add: depositAndGrowR_fields mr_def [symmetric] mi_def [symmetric]
            y_def [symmetric])
  qed
qed

lemma depositAndGrowR_months:
  assumes "rounding rnd" and "0 \<le> getMonthlyRateR rnd pw (annualReturn params)" and "0 \<le> dep"
    and "r \<longrightarrow> - 1 \<le> getMonthlyRateR rnd pw (annualInflation params) \<and>
           getMonthlyRateR rnd pw (annualInflation params) \<le>
             getMonthlyRateR rnd pw (annualReturn params)"
    and "0 \<le> balance v" and "nominalCostBasis v \<le> balance v"
    and "r \<longrightarrow> realCostBasis v \<le> balance v"
  shows "0 \<le> balance ((depositAndGrowR rnd pw params dep ^^ k) v) \<and>
         nominalCostBasis ((depositAndGrowR rnd pw params dep ^^ k) v) \<le>
           balance ((depositAndGrowR rnd pw params dep ^^ k) v) \<and>
         (r \<longrightarrow> realCostBasis ((depositAndGrowR rnd pw params dep ^^ k) v) \<le>
           balance ((depositAndGrowR rnd pw params dep ^^ k) v))"
proof (induction k)
  case 0
  show ?case using assms(5-7) by simp
next
  case (Suc k)
  let ?w = "(depositAndGrowR rnd pw params dep ^^ k) v"
  from Suc have w: "0 \<le> balance ?w" "nominalCostBasis ?w \<le> balance ?w"
    "r \<longrightarrow> realCostBasis ?w \<le> balance ?w" by simp_all
  note t = depositAndGrowR_inv [OF assms(1-4) w]
  from t show ?case by simp
qed

lemma rounding_toGrid: "rounding toGrid"
proof -
  have 1: "mono toGrid"
    by (rule monoI) (simp add: toGrid_def divide_right_mono floor_mono)
  have 2: "toGrid (toGrid x) = toGrid x" for x
  proof -
    have "\<lfloor>of_int \<lfloor>x * 1024 + 1 / 2\<rfloor> + (1 / 2 :: real)\<rfloor> = \<lfloor>x * 1024 + 1 / 2\<rfloor>"
      by (simp add: floor_eq_iff)
    then show ?thesis by (simp add: toGrid_def)
  qed
  have 3: "toGrid 0 = 0" "toGrid 1 = 1" by (simp_all add: toGrid_def)
  from 1 2 3 show ?thesis by (simp add: rounding_def)
qed

lemma toGrid_third: "toGrid (1 / 3) = 341 / 1024"
proof -
  have "\<lfloor>(2051 / 6 :: real)\<rfloor> = 341" by (simp add: floor_eq_iff)
  then show ?thesis by (simp add: toGrid_def)
qed

text \<open>
  A withdrawal in rounded arithmetic: from a balance and a cost basis of 9000 a withdrawal of
  3000 leaves the balance at 6000 and the cost basis above it, as the quotient 1/3 is
  rounded down. (With the rounding of doubles the cost basis is 6000.000000000001.)
\<close>

lemma withdrawal_rounding_breaks_bound:
  "toGrid (9000 - 3000) = 6000 \<and>
   reduceCostBasisR toGrid (toGrid (9000 - 3000)) 3000 9000 = 768375 / 128 \<and>
   reduceCostBasisR toGrid (toGrid (9000 - 3000)) 3000 9000 > toGrid (9000 - 3000) \<and>
   reduceCostBasisR (\<lambda>x. x) (9000 - 3000) 3000 9000 = 6000"
proof -
  have 1: "toGrid 6000 = 6000" "toGrid 9000 = 9000" by (simp_all add: toGrid_def)
  have 2: "toGrid (683 / 1024) = 683 / 1024" by (simp add: toGrid_def)
  have 3: "toGrid (768375 / 128) = 768375 / 128" by (simp add: toGrid_def)
  show ?thesis by (simp add: reduceCostBasisR_def Let_def 1 2 3 toGrid_third)
qed

text \<open>
  An overdrawn month breaks the bound for the nominal cost basis: from a balance of 100 with
  a nominal cost basis of 50, a withdrawal of 200 leaves the balance at -100 and the cost
  basis at -50.
\<close>

lemma overdraw_breaks_nominal_bound:
  "finalBalanceP (runSimulationPeriod 100 50 50 sd 0 1 0 (zeroRates 100)
      (groupByMonth [goalAt 0 200])) = - 100 \<and>
   finalNominalCostBasis (runSimulationPeriod 100 50 50 sd 0 1 0 (zeroRates 100)
      (groupByMonth [goalAt 0 200])) = - 50"
  by (simp add: sim_defs zeroRates_def goalAt_def)

subsection \<open>The store\<close>

lemma map_insort_key:
  "map f (insort_key (\<lambda>x. k (f x)) x xs) = insort_key k (f x) (map f xs)"
  by (induction xs) simp_all

lemma map_sort_key:
  "map f (sort_key (k \<circ> f) xs) = sort_key k (map f xs)"
  unfolding comp_def by (induction xs) (simp_all add: map_insort_key)

lemma those_eq_Some:
  "those xs = Some ys \<longleftrightarrow> xs = map Some ys"
proof (induction xs arbitrary: ys)
  case Nil
  show ?case by auto
next
  case (Cons x xs)
  show ?case
    by (cases x; cases ys) (auto simp: Cons.IH split: option.splits)
qed

lemma derefEvents_pairs:
  assumes "derefEvents h refs = Some es"
  shows "length es = length refs" and "\<forall>(r, e)\<in>set (zip refs es). eventObjs h r = Some e"
proof -
  have m: "map (eventObjs h) refs = map Some es"
    using assms by (simp add: derefEvents_def those_eq_Some)
  from arg_cong [OF m, of length] show l: "length es = length refs" by simp
  show "\<forall>(r, e)\<in>set (zip refs es). eventObjs h r = Some e"
  proof (clarify)
    fix r e assume "(r, e) \<in> set (zip refs es)"
    then obtain i where i: "i < length refs" "i < length es" "refs ! i = r" "es ! i = e"
      by (auto simp: set_zip)
    from arg_cong [OF m, of "\<lambda>xs. xs ! i"] i show "eventObjs h r = Some e" by simp
  qed
qed

lemma derefEvents_of_pairs:
  assumes "\<forall>(r, e)\<in>set ps. eventObjs h r = Some e"
  shows "derefEvents h (map fst ps) = Some (map snd ps)"
proof -
  have "map (eventObjs h) (map fst ps) = map Some (map snd ps)"
    using assms by (induction ps) auto
  then show ?thesis by (simp add: derefEvents_def those_eq_Some)
qed

lemma derefEvents_sorted:
  assumes "derefEvents h refs = Some es" and "eventObjs h' = eventObjs h"
  shows "derefEvents h' (map fst (sort_key (monthOffset \<circ> snd) (zip refs es))) =
           Some (sort_key monthOffset es)"
proof -
  let ?ps = "sort_key (monthOffset \<circ> snd) (zip refs es)"
  note d = derefEvents_pairs [OF assms(1)]
  have "\<forall>(r, e)\<in>set ?ps. eventObjs h' r = Some e" using d(2) assms(2) by simp
  then have "derefEvents h' (map fst ?ps) = Some (map snd ?ps)" by (rule derefEvents_of_pairs)
  moreover have "map snd ?ps = sort_key monthOffset (map snd (zip refs es))" by (rule map_sort_key)
  moreover have "map snd (zip refs es) = es" using d(1) by simp
  ultimately show ?thesis by simp
qed

lemma calculateSavingsPlanH_run:
  assumes wf: "\<forall>a. nextAddr h \<le> a \<longrightarrow> arrays h a = None"
    and p: "paramObjs h paramsRef = Some params"
    and a: "arrays h eventsRef = Some refs"
    and e: "derefEvents h refs = Some events"
  shows "calculateSavingsPlanH paramsRef eventsRef h =
           Some (calculateSavingsPlan params events,
                 h\<lparr> arrays := (arrays h)(nextAddr h \<mapsto>
                        map fst (sort_key (monthOffset \<circ> snd) (zip refs events))),
                    nextAddr := Suc (nextAddr h) \<rparr>)"
proof -
  let ?h1 = "h\<lparr> arrays := (arrays h)(nextAddr h \<mapsto> refs), nextAddr := Suc (nextAddr h) \<rparr>"
  let ?sorted = "map fst (sort_key (monthOffset \<circ> snd) (zip refs events))"
  let ?h2 = "h\<lparr> arrays := (arrays h)(nextAddr h \<mapsto> ?sorted), nextAddr := Suc (nextAddr h) \<rparr>"
  have e1: "derefEvents ?h1 refs = Some events" using e by (simp add: derefEvents_def)
  have s: "sortInPlace (nextAddr h) ?h1 = Some ?h2"
    by (simp add: sortInPlace_def e1)
  have d: "derefEvents ?h2 ?sorted = Some (sort_key monthOffset events)"
    by (rule derefEvents_sorted [OF e]) simp
  show ?thesis
    by (simp add: calculateSavingsPlanH_def p a allocArray_def s d calculateSavingsPlan_def)
qed

lemma exampleStore_simps:
  "arrays exampleStore = [0 \<mapsto> [2, 1]]"
  "eventObjs exampleStore = [1 \<mapsto> goalNamed ''a'' 0 100, 2 \<mapsto> goalNamed ''b'' 2 200]"
  "paramObjs exampleStore = [3 \<mapsto> zeroRates 0]"
  "nextAddr exampleStore = 4"
  by (simp_all add: exampleStore_def)

text \<open>In-place sort on the caller's array, by contrast, reorders it.\<close>

lemma sortInPlace_reorders_caller_array:
  "arrays exampleStore 0 = Some [2, 1] \<and>
   arrays (the (sortInPlace 0 exampleStore)) 0 = Some [1, 2]"
  by (simp add: sortInPlace_def derefEvents_def exampleStore_simps)

lemma sorted_copy_in_fresh_array:
  "arrays (snd (the (calculateSavingsPlanH 3 0 exampleStore))) 4 = Some [1, 2]"
proof -
  have wf: "\<forall>a. nextAddr exampleStore \<le> a \<longrightarrow> arrays exampleStore a = None"
    by (simp add: exampleStore_simps)
  have p: "paramObjs exampleStore 3 = Some (zeroRates 0)" by (simp add: exampleStore_simps)
  have a: "arrays exampleStore 0 = Some [2, 1]" by (simp add: exampleStore_simps)
  have e: "derefEvents exampleStore [2, 1] = Some [goalNamed ''b'' 2 200, goalNamed ''a'' 0 100]"
    by (simp add: derefEvents_def exampleStore_simps)
  show ?thesis
    by (simp add: calculateSavingsPlanH_run [OF wf p a e] exampleStore_simps)
qed

subsection \<open>The functions with the exception\<close>











lemma searchLoopE_numeral:
  "searchLoopE sim (numeral n) s = searchLoopE sim (Suc (pred_numeral n)) s"
  by (simp add: numeral_eq_Suc)





subsection \<open>The special values\<close>

lemma getMonthlyRateJ_Fin:
  "- 100 \<le> a \<Longrightarrow> getMonthlyRateJ a = Fin (getMonthlyRate a)"
  by (simp add: getMonthlyRateJ_def getMonthlyRate_def jsub_def)

lemma getMonthlyRateJ_NaN:
  "a < - 100 \<Longrightarrow> getMonthlyRateJ a = NaN"
  by (simp add: getMonthlyRateJ_def jsub_def)

lemma one_plus_rate_pos: "- 100 < a \<Longrightarrow> 0 < 1 + getMonthlyRate a"
  by (simp add: getMonthlyRate_def)

lemma targetNetNominalJ_Fin:
  assumes "- 100 < annualInflation params"
  shows "targetNetNominalJ params i e = Fin (targetNetNominal params i e)"
proof -
  have r: "getMonthlyRateJ (annualInflation params) = Fin (getMonthlyRate (annualInflation params))"
    using assms by (simp add: getMonthlyRateJ_Fin)
  have p: "1 + getMonthlyRate (annualInflation params) \<noteq> 0"
    using one_plus_rate_pos [OF assms] by simp
  show ?thesis
    using p by (simp add: targetNetNominalJ_def targetNetNominal_def r Let_def)
qed

lemma depositAndGrowJ_Fin:
  assumes "- 100 \<le> annualInflation params" "- 100 \<le> annualReturn params"
  shows "depositAndGrowJ params dep (finAccount v) = finAccount (depositAndGrow params dep v)"
  using assms
  by (simp add: depositAndGrowJ_def finAccount_def depositAndGrow_fields getMonthlyRateJ_Fin Let_def)

lemma realProfitRatioJ_Fin:
  "realProfitRatioJ (finAccount v) = Fin (realProfitRatio v)"
  by (simp add: realProfitRatioJ_def realProfitRatio_def finAccount_def jgt_def jmax_def jsub_def
        max_def)

lemma grossNeededJ_zero_tax:
  assumes "capitalGainsTax params = 0" "- 100 < annualInflation params"
  shows "grossNeededJ params i (finAccount v) e = Fin (targetNetNominal params i e)"
  by (simp add: grossNeededJ_def realProfitRatioJ_Fin assms(1) targetNetNominalJ_Fin [OF assms(2)]
        jsub_def Let_def)

lemma deflating_simps [simp]:
  "annualReturn deflating = 0" "annualInflation deflating = - 200"
  "capitalGainsTax deflating = 0"
  by (simp_all add: deflating_def)

section \<open>The claims\<close>

text \<open>
  C1 (as amended). For a non-empty goal list the solver returns the upper end \<open>high\<close> of
  the bracket left by twenty bisection steps on [0, 1000000], rounded up to a multiple of
  10. The bracket has width \<open>1000000 / 2 ^ 20\<close>; its lower end is 0 or a deposit whose
  simulation (from the start month through the last goal's month, all goals applied) fails;
  its upper end is 1000000 or a deposit whose simulation does not fail. The result lies in
  [10, 1000000] and is less than \<open>high + 10\<close>. When failure is monotone in the deposit on
  [0, 1000000], the result is above every non-failing deposit of that range by less than
  \<open>10 + 1000000 / 2 ^ 20\<close>.
\<close>

theorem solveRequiredDeposit_bisection:
  assumes "events \<noteq> []"
  shows "case searchDeposit sb scb sncb sd smi events params of
     (low, high, result) \<Rightarrow>
       solveRequiredDeposit sb scb sncb sd smi events params = real_of_int \<lceil>result / 10\<rceil> * 10 \<and>
       result = high \<and> high - low = 1000000 / 2 ^ 20 \<and> 0 \<le> low \<and> high \<le> 1000000 \<and>
       (low = 0 \<or> failed (searchSim sb scb sncb sd smi events params low)) \<and>
       (high = 1000000 \<or> \<not> failed (searchSim sb scb sncb sd smi events params high)) \<and>
       result \<le> solveRequiredDeposit sb scb sncb sd smi events params \<and>
       solveRequiredDeposit sb scb sncb sd smi events params < result + 10 \<and>
       10 \<le> solveRequiredDeposit sb scb sncb sd smi events params \<and>
       solveRequiredDeposit sb scb sncb sd smi events params \<le> 1000000 \<and>
       ((\<forall>d d'. 0 \<le> d \<and> d \<le> d' \<and> d' \<le> 1000000 \<and>
                failed (searchSim sb scb sncb sd smi events params d') \<longrightarrow>
                failed (searchSim sb scb sncb sd smi events params d)) \<longrightarrow>
        (\<forall>d. 0 \<le> d \<and> d \<le> 1000000 \<and> \<not> failed (searchSim sb scb sncb sd smi events params d) \<longrightarrow>
             solveRequiredDeposit sb scb sncb sd smi events params < d + 10 + 1000000 / 2 ^ 20))"
proof -
  let ?solve = "solveRequiredDeposit sb scb sncb sd smi events params"
  let ?fails = "\<lambda>d. failed (searchSim sb scb sncb sd smi events params d)"
  obtain low high result where
    s: "searchDeposit sb scb sncb sd smi events params = (low, high, result)"
    by (metis prod_cases3)
  note b = solveRequiredDeposit_search [OF assms s]
  have up: "high \<le> ?solve" and lt: "?solve < high + 10"
    using ceil10_bounds [of high] by (simp_all add: b(1))
  have pos: "0 < high" using b(3,4) by simp
  then have "0 < \<lceil>high / 10\<rceil>" by simp
  then have "1 \<le> real_of_int \<lceil>high / 10\<rceil>" by linarith
  then have lo: "10 \<le> ?solve" by (simp add: b(1))
  have "high / 10 \<le> 100000" using b(5) by simp
  then have "\<lceil>high / 10\<rceil> \<le> 100000" by (simp add: ceiling_le_iff)
  then have "real_of_int \<lceil>high / 10\<rceil> \<le> 100000" by linarith
  then have hi: "?solve \<le> 1000000" by (simp add: b(1))
  have mono: "?solve < d + 10 + 1000000 / 2 ^ 20"
    if m: "\<forall>d d'. 0 \<le> d \<and> d \<le> d' \<and> d' \<le> 1000000 \<and> ?fails d' \<longrightarrow> ?fails d"
      and d: "0 \<le> d \<and> d \<le> 1000000 \<and> \<not> ?fails d" for d
  proof -
    have "low \<le> d"
    proof (cases "low = 0")
      case True
      with d show ?thesis by simp
    next
      case False
      with b(6) have f: "?fails low" by simp
      show ?thesis
      proof (rule ccontr)
        assume "\<not> low \<le> d"
        then have "0 \<le> d \<and> d \<le> low \<and> low \<le> 1000000 \<and> ?fails low"
          using d f b(3,5) by simp
        with m have "?fails d" by blast
        with d show False by simp
      qed
    qed
    with lt b(3) show ?thesis by linarith
  qed
  show ?thesis
    unfolding s using b up lt lo hi mono by (simp add: b(2))
qed

theorem solveRequiredDeposit_bisection_witness:
  "[goalAt 0 500] \<noteq> [] \<and>
   solveRequiredDeposit 0 0 0 (NewDate ''2024-01-01'') 0 [goalAt 0 500] (zeroRates 0) = 500"
proof -
  let ?sd = "NewDate ''2024-01-01''"
  let ?solve = "solveRequiredDeposit 0 0 0 ?sd 0 [goalAt 0 500] (zeroRates 0)"
  obtain low high result where
    s: "searchDeposit 0 0 0 ?sd 0 [goalAt 0 500] (zeroRates 0) = (low, high, result)"
    by (metis prod_cases3)
  have ne: "[goalAt 0 500] \<noteq> []" by simp
  note t = solveRequiredDeposit_bisection [OF ne, of 0 0 0 ?sd 0 "zeroRates 0"]
  have c: "?solve = real_of_int \<lceil>result / 10\<rceil> * 10"
    and r: "result = high" "result \<le> ?solve" "high = 1000000 \<or> \<not> high < 499"
    using t unfolding s uncovered_goal_fails_iff prod.case by blast+
  have "(\<forall>d d'::real. 0 \<le> d \<and> d \<le> d' \<and> d' \<le> 1000000 \<and> d' < 499 \<longrightarrow> d < 499) \<longrightarrow>
        (\<forall>d. 0 \<le> d \<and> d \<le> 1000000 \<and> \<not> d < 499 \<longrightarrow> ?solve < d + 10 + 1000000 / 2 ^ 20)"
    using t unfolding s uncovered_goal_fails_iff prod.case by blast
  moreover have "\<forall>d d'::real. 0 \<le> d \<and> d \<le> d' \<and> d' \<le> 1000000 \<and> d' < 499 \<longrightarrow> d < 499" by auto
  ultimately have "\<forall>d. 0 \<le> d \<and> d \<le> 1000000 \<and> \<not> d < 499 \<longrightarrow> ?solve < d + 10 + 1000000 / 2 ^ 20"
    by blast
  then have "?solve < 499 + 10 + 1000000 / 2 ^ 20" by (elim allE [of _ 499]) simp
  then have 2: "?solve < 510" by simp
  have 1: "499 \<le> ?solve" using r by linarith
  from 1 2 have "\<lceil>result / 10\<rceil> = 50" unfolding c by linarith
  then show ?thesis using c by simp
qed

text \<open>
  C1 (counterexample). The account holds 1000 and the one goal needs 500, no growth, no tax:
  the deposit 0 lies in [0, 1000000] and its simulation does not fail, and the solver
  returns 10.
\<close>

theorem solveRequiredDeposit_not_minimal:
  "\<not> failed (searchSim 1000 1000 1000 (NewDate ''2024-01-01'') 0 [goalAt 0 500] (zeroRates 1000) 0) \<and>
   solveRequiredDeposit 1000 1000 1000 (NewDate ''2024-01-01'') 0 [goalAt 0 500] (zeroRates 1000) = 10"
  using covered_goal_never_fails [of 0] covered_goal_solve by simp

text \<open>
  C2. Along the schedule of a plan the deposit never increases: of any two month records the
  later one has a deposit at most the earlier one's. The deposit of a segment is the minimum
  of the required deposit and the ceiling, and the required deposit itself while the ceiling
  is still unbounded.
\<close>

theorem deposits_never_increase:
  "sorted_wrt (\<lambda>earlier later. deposit later \<le> deposit earlier)
     (schedule (calculateSavingsPlan params events)) \<and>
   actualDepositOf requiredDeposit (Some depositCeiling) = min requiredDeposit depositCeiling \<and>
   actualDepositOf requiredDeposit None = requiredDeposit"
  using segmentLoop_deposits [of params "sort_key monthOffset events"]
  by (simp add: calculateSavingsPlan_schedule actualDepositOf_def min_def)

text \<open>
  C3 (as amended). Over months in which no goal is due, with an annual return rate of at
  least 0 and a monthly deposit of at least 0, from a balance of at least 0 and a nominal
  cost basis at most the balance, the nominal cost basis is at most the balance after every
  month step; so is the real cost basis, at the end and in every month record, when it
  starts at most the balance, the annual inflation rate is at least -100 and the monthly
  inflation rate is at most the monthly return rate. Both hold of \<open>runSimulationPeriod\<close>
  and, for any number of months, of the month's deposit and growth in rounded arithmetic,
  for every monotone rounding and every \<open>Math.pow\<close> that gives at least 1 from a base of at
  least 1 (there with a monthly inflation rate of at least -1). On every withdrawal both
  cost bases are multiplied by \<open>1 - gross / (balance + gross)\<close>, with the balance after that
  withdrawal, when \<open>balance + gross\<close> is positive, and set to 0 otherwise. Across a
  withdrawal the bound is not stated: an overdraft breaks it, and so can the rounding of the
  product (from a balance and a cost basis of 9000, a withdrawal of 3000 leaves the balance
  at 6000 and the cost basis above it).
\<close>

theorem cost_bases_bounded_without_withdrawals:
  assumes "0 \<le> annualReturn params" and "0 \<le> dep" and "0 \<le> sb" and "sncb \<le> sb"
    and "\<forall>j<nat dur. eventsDue evs (smi + int j) = []"
    and "rounding rnd" and "\<forall>x. 1 \<le> x \<longrightarrow> 1 \<le> pw x (rnd (1 / 12))"
    and "0 \<le> balance v" and "nominalCostBasis v \<le> balance v"
  shows "finalNominalCostBasis (runSimulationPeriod sb scb sncb sd smi dur dep params evs) \<le>
           finalBalanceP (runSimulationPeriod sb scb sncb sd smi dur dep params evs) \<and>
         (- 100 \<le> annualInflation params \<and>
          getMonthlyRate (annualInflation params) \<le> getMonthlyRate (annualReturn params) \<and>
          scb \<le> sb \<longrightarrow>
            finalCostBasis (runSimulationPeriod sb scb sncb sd smi dur dep params evs) \<le>
              finalBalanceP (runSimulationPeriod sb scb sncb sd smi dur dep params evs) \<and>
            (\<forall>m\<in>set (scheduleP (runSimulationPeriod sb scb sncb sd smi dur dep params evs)).
               costBasis m \<le> balanceEnd m)) \<and>
         nominalCostBasis ((depositAndGrowR rnd pw params dep ^^ k) v) \<le>
           balance ((depositAndGrowR rnd pw params dep ^^ k) v) \<and>
         (- 100 \<le> annualInflation params \<and>
          - 1 \<le> getMonthlyRateR rnd pw (annualInflation params) \<and>
          getMonthlyRateR rnd pw (annualInflation params) \<le>
            getMonthlyRateR rnd pw (annualReturn params) \<and>
          realCostBasis v \<le> balance v \<longrightarrow>
            realCostBasis ((depositAndGrowR rnd pw params dep ^^ k) v) \<le>
              balance ((depositAndGrowR rnd pw params dep ^^ k) v)) \<and>
         depositAndGrowR (\<lambda>x. x) (powr) params dep v = depositAndGrow params dep v \<and>
         realCostBasis (processEvent params i w e) =
           (if balance (processEvent params i w e) + grossNeeded params i w e > 0
            then realCostBasis w *
                   (1 - grossNeeded params i w e /
                          (balance (processEvent params i w e) + grossNeeded params i w e))
            else 0) \<and>
         nominalCostBasis (processEvent params i w e) =
           (if balance (processEvent params i w e) + grossNeeded params i w e > 0
            then nominalCostBasis w *
                   (1 - grossNeeded params i w e /
                          (balance (processEvent params i w e) + grossNeeded params i w e))
            else 0)"
proof -
  let ?R = "runSimulationPeriod sb scb sncb sd smi dur dep params evs"
  let ?w = "(depositAndGrowR rnd pw params dep ^^ k) v"
  have q: "\<forall>m\<in>set (scheduleP ?R). 0 \<le> balanceEnd m"
    by (rule runSimulationPeriod_quiet_nonneg [OF assms(1,2,3,5)])
  have 1: "finalNominalCostBasis ?R \<le> finalBalanceP ?R"
    by (rule runSimulationPeriod_inv(1) [where r = False, OF assms(1,2) _ assms(3,4) _ q])
       simp_all
  have 2: "finalCostBasis ?R \<le> finalBalanceP ?R \<and>
            (\<forall>m\<in>set (scheduleP ?R). costBasis m \<le> balanceEnd m)"
    if "- 100 \<le> annualInflation params \<and>
        getMonthlyRate (annualInflation params) \<le> getMonthlyRate (annualReturn params) \<and>
        scb \<le> sb"
    using runSimulationPeriod_inv(2) [where r = True, OF assms(1,2) _ assms(3,4) _ q] that
    by simp
  have mr: "0 \<le> getMonthlyRateR rnd pw (annualReturn params)"
    by (rule getMonthlyRateR_nonneg [where rnd = rnd and pw = pw, OF assms(6,7,1)])
  have 3: "nominalCostBasis ?w \<le> balance ?w"
    using depositAndGrowR_months [where r = False, OF assms(6) mr assms(2) _ assms(8,9)]
    by simp
  have 4: "realCostBasis ?w \<le> balance ?w"
    if "- 100 \<le> annualInflation params \<and>
        - 1 \<le> getMonthlyRateR rnd pw (annualInflation params) \<and>
        getMonthlyRateR rnd pw (annualInflation params) \<le>
          getMonthlyRateR rnd pw (annualReturn params) \<and>
        realCostBasis v \<le> balance v"
    using depositAndGrowR_months [where r = True, OF assms(6) mr assms(2) _ assms(8,9)] that
    by simp
  have 5: "depositAndGrowR (\<lambda>x. x) (powr) params dep v = depositAndGrow params dep v"
    by (rule depositAndGrowR_exact)
  have 6: "realCostBasis (processEvent params i w e) =
           (if balance (processEvent params i w e) + grossNeeded params i w e > 0
            then realCostBasis w *
                   (1 - grossNeeded params i w e /
                          (balance (processEvent params i w e) + grossNeeded params i w e))
            else 0)"
    by (simp add: processEvent_fields)
  have 7: "nominalCostBasis (processEvent params i w e) =
           (if balance (processEvent params i w e) + grossNeeded params i w e > 0
            then nominalCostBasis w *
                   (1 - grossNeeded params i w e /
                          (balance (processEvent params i w e) + grossNeeded params i w e))
            else 0)"
    by (simp add: processEvent_fields)
  from 1 2 3 4 5 6 7 show ?thesis by blast
qed

theorem cost_bases_bounded_without_withdrawals_witness:
  "0 \<le> annualReturn growing \<and> - 100 \<le> annualInflation growing \<and>
   getMonthlyRate (annualInflation growing) \<le> getMonthlyRate (annualReturn growing) \<and>
   eventsDue (groupByMonth [goalAt 5 500]) 0 = [] \<and>
   eventsDue (groupByMonth [goalAt 5 500]) 1 = [] \<and>
   toGrid (1 / 3) = 341 / 1024 \<and>
   - 1 \<le> getMonthlyRateR toGrid (powr) (annualInflation growing) \<and>
   getMonthlyRateR toGrid (powr) (annualInflation growing) \<le>
     getMonthlyRateR toGrid (powr) (annualReturn growing) \<and>
   finalNominalCostBasis (runSimulationPeriod 1000 800 900 (NewDate ''2024-01-01'') 0 2 10
      growing (groupByMonth [goalAt 5 500])) \<le>
     finalBalanceP (runSimulationPeriod 1000 800 900 (NewDate ''2024-01-01'') 0 2 10
      growing (groupByMonth [goalAt 5 500])) \<and>
   finalCostBasis (runSimulationPeriod 1000 800 900 (NewDate ''2024-01-01'') 0 2 10
      growing (groupByMonth [goalAt 5 500])) \<le>
     finalBalanceP (runSimulationPeriod 1000 800 900 (NewDate ''2024-01-01'') 0 2 10
      growing (groupByMonth [goalAt 5 500])) \<and>
   nominalCostBasis ((depositAndGrowR toGrid (powr) growing 10 ^^ 2) (initVars 1000 800 900)) \<le>
     balance ((depositAndGrowR toGrid (powr) growing 10 ^^ 2) (initVars 1000 800 900)) \<and>
   realCostBasis ((depositAndGrowR toGrid (powr) growing 10 ^^ 2) (initVars 1000 800 900)) \<le>
     balance ((depositAndGrowR toGrid (powr) growing 10 ^^ 2) (initVars 1000 800 900))"
proof -
  let ?evs = "groupByMonth [goalAt 5 500]"
  let ?R = "runSimulationPeriod 1000 800 900 (NewDate ''2024-01-01'') 0 2 10 growing ?evs"
  let ?v = "initVars 1000 800 900"
  let ?w = "(depositAndGrowR toGrid (powr) growing 10 ^^ 2) ?v"
  have h1: "0 \<le> annualReturn growing" by simp
  have h2: "- 100 \<le> annualInflation growing" by simp
  have h3: "getMonthlyRate (annualInflation growing) \<le> getMonthlyRate (annualReturn growing)"
    by (simp add: getMonthlyRate_mono)
  have e0: "eventsDue ?evs 0 = []"
    by (simp add: eventsDue_def groupByMonth_def pushEvent_def goalAt_def)
  have e1: "eventsDue ?evs 1 = []"
    by (simp add: eventsDue_def groupByMonth_def pushEvent_def goalAt_def)
  have q: "\<forall>j<nat 2. eventsDue ?evs (0 + int j) = []"
    using e0 e1 by (auto simp: less_Suc_eq numeral_2_eq_2)
  have n: "(0::real) \<le> 10" "(0::real) \<le> 1000" "(900::real) \<le> 1000" by simp_all
  have p: "\<forall>x. 1 \<le> x \<longrightarrow> 1 \<le> x powr toGrid (1 / 12)"
    by (simp add: toGrid_def ge_one_powr_ge_zero)
  have b: "0 \<le> balance ?v" "nominalCostBasis ?v \<le> balance ?v" "realCostBasis ?v \<le> balance ?v"
    by (simp_all add: initVars_def)
  have g0: "0 \<le> getMonthlyRateR toGrid (powr) (annualInflation growing)"
    by (rule getMonthlyRateR_nonneg [where rnd = toGrid and pw = "(powr)", OF rounding_toGrid p])
       simp
  then have g1: "- 1 \<le> getMonthlyRateR toGrid (powr) (annualInflation growing)" by simp
  have g2: "getMonthlyRateR toGrid (powr) (annualInflation growing) \<le>
      getMonthlyRateR toGrid (powr) (annualReturn growing)"
    by (rule getMonthlyRateR_powr_mono [OF rounding_toGrid]) simp_all
  note t = cost_bases_bounded_without_withdrawals
    [where rnd = toGrid and pw = "(powr)" and k = 2 and scb = 800,
     OF h1 n(1,2,3) q rounding_toGrid p b(1,2)]
  have r: "finalNominalCostBasis ?R \<le> finalBalanceP ?R \<and> finalCostBasis ?R \<le> finalBalanceP ?R"
    using t h2 h3 by simp
  have s: "nominalCostBasis ?w \<le> balance ?w \<and> realCostBasis ?w \<le> balance ?w"
    using t h2 g1 g2 b(3) by blast
  from h1 h2 h3 e0 e1 toGrid_third g1 g2 r s show ?thesis by blast
qed

text \<open>
  C3 (counterexample). No growth (annual return 0) and 2 percent inflation, one month from
  1000 with no deposit and no event: the balance stays 1000 and the real cost basis, indexed
  to inflation, is above it.
\<close>

theorem real_cost_basis_exceeds_balance:
  "0 \<le> annualReturn inflationOnly \<and>
   finalBalanceP (runSimulationPeriod 1000 1000 1000 (NewDate ''2024-01-01'') 0 1 0 inflationOnly []) = 1000 \<and>
   finalCostBasis (runSimulationPeriod 1000 1000 1000 (NewDate ''2024-01-01'') 0 1 0 inflationOnly []) > 1000"
  using getMonthlyRate_pos [of 2]
  by (simp add: runSimulationPeriod_def initVars_def monthBody_def handleEvents_def
        depositAndGrow_def Let_def)




text \<open>
  C5 (as amended). The inflation-adjusted net target of an event processed in the month with
  global index \<open>i\<close> is \<open>targetAmount * (1 + monthlyInflation) ^ i\<close>, with \<open>i\<close> counted
  from month 0 of the whole simulation: the records of a segment that starts at month
  \<open>startMonthIndex\<close> carry the indices \<open>startMonthIndex, startMonthIndex + 1, ...\<close>. Each
  event adds its amount to the month's total, and the month's recorded net withdrawal is the
  total over the events due that month when it is positive, and absent otherwise.
\<close>

theorem net_withdrawal_indexed_from_month_zero:
  "targetNetNominal params i e =
     targetAmount e * (1 + getMonthlyRate (annualInflation params)) powi i \<and>
   monthWithdrawalNet (processEvent params i v e) =
     monthWithdrawalNet v + targetNetNominal params i e \<and>
   map monthIndex (scheduleP (runSimulationPeriod sb scb sncb sd smi dur dep params evs)) =
     map (\<lambda>j. smi + int j) [0..<nat dur] \<and>
   (\<forall>m\<in>set (scheduleP (runSimulationPeriod sb scb sncb sd smi dur dep params evs)).
      withdrawalNet m =
        (let total = (\<Sum>e\<leftarrow>eventsDue evs (monthIndex m).
                        targetAmount e *
                          (1 + getMonthlyRate (annualInflation params)) powi monthIndex m)
         in if total > 0 then Some total else None))"
proof -
  have t: "targetNetNominal params i e =
     targetAmount e * (1 + getMonthlyRate (annualInflation params)) powi i" for i e
    by (simp add: targetNetNominal_def Let_def)
  have "\<forall>m\<in>set (scheduleP (runSimulationPeriod sb scb sncb sd smi dur dep params evs)).
      withdrawalNet m =
        (let total = (\<Sum>e\<leftarrow>eventsDue evs (monthIndex m).
                        targetAmount e *
                          (1 + getMonthlyRate (annualInflation params)) powi monthIndex m)
         in if total > 0 then Some total else None)"
    by (rule runSimulationPeriod_records)
       (simp add: handleEvents_net depositAndGrow_fields t Let_def)
  then show ?thesis
    using t by (simp add: processEvent_fields runSimulationPeriod_monthIndex)
qed


theorem net_withdrawal_indexed_from_month_zero_witness:
  "map withdrawalNet
     (scheduleP (runSimulationPeriod 10000 10000 10000 (NewDate ''2024-01-01'') 3 2 0
        doublingPrices (groupByMonth [goalNamed ''a'' 4 100, goalNamed ''b'' 4 200]))) =
     [None, Some (100 * 2 ^ 4 + 200 * 2 ^ 4)]"
proof -
  let ?evs = "groupByMonth [goalNamed ''a'' 4 100, goalNamed ''b'' 4 200]"
  let ?s = "scheduleP (runSimulationPeriod 10000 10000 10000 (NewDate ''2024-01-01'') 3 2 0
        doublingPrices ?evs)"
  let ?f = "\<lambda>idx. let total = (\<Sum>e\<leftarrow>eventsDue ?evs idx.
                        targetAmount e *
                          (1 + getMonthlyRate (annualInflation doublingPrices)) powi idx)
         in if total > 0 then Some total else None"
  note t = net_withdrawal_indexed_from_month_zero [of doublingPrices 0 "goalNamed ''a'' 4 100"
      "initVars 0 0 0" 10000 10000 10000 "NewDate ''2024-01-01''" 3 2 0 ?evs]
  have i: "map monthIndex ?s = [3, 4]"
    using t by (simp add: upt_rec)
  have "\<forall>m\<in>set ?s. withdrawalNet m = ?f (monthIndex m)" using t by blast
  then have "map withdrawalNet ?s = map ?f (map monthIndex ?s)"
    by (rule map_cong_records)
  also have "\<dots> = [?f 3, ?f 4]" by (simp only: i list.map)
  also have "\<dots> = [None, Some (100 * 2 ^ 4 + 200 * 2 ^ 4)]"
    by (simp add: groupByMonth_same_month eventsDue_def getMonthlyRate_doubling)
  finally show ?thesis .
qed

text \<open>
  C5 (counterexample). Two goals of 100 and 200 due in month 0, zero inflation: the recorded
  net withdrawal of the month is 300, the amount of neither event.
\<close>

theorem net_withdrawal_is_month_total:
  "withdrawalNet
     (hd (scheduleP (runSimulationPeriod 1000 1000 1000 (NewDate ''2024-01-01'') 0 1 0
        (zeroRates 1000) (groupByMonth [goalNamed ''a'' 0 100, goalNamed ''b'' 0 200])))) =
     Some 300 \<and>
   targetNetNominal (zeroRates 1000) 0 (goalNamed ''a'' 0 100) = 100 \<and>
   targetNetNominal (zeroRates 1000) 0 (goalNamed ''b'' 0 200) = 200"
  by (simp add: groupByMonth_same_month)
     (simp add: runSimulationPeriod_def initVars_def monthBody_def handleEvents_def
        depositAndGrow_def processEvent_def monthRecord_def targetNetNominal_def Let_def)

text \<open>
  C6. With an empty goal list the plan is the trivial result: success, an empty schedule,
  the initial capital as final balance, and all totals zero.
\<close>

theorem no_goals_identity:
  "calculateSavingsPlan params [] =
     \<lparr> success = True, schedule = [], finalBalance = initialCapital params,
       totalDeposited = 0, totalTaxPaid = 0, totalWithdrawnNet = 0 \<rparr>"
  by (simp add: calculateSavingsPlan_def planOfSorted_def)

text \<open>
  C7 (as amended). With a capital-gains tax rate of 0 and an annual inflation rate above
  -100, the gross withdrawal of every event equals its inflation-adjusted net target, for
  every finite balance and cost basis, so for any profit ratio: on the numbers with the
  special values both are the same finite number, the tax of the event is 0 and the balance
  falls by the net target. In every month record of a simulation the gross withdrawal equals
  the net withdrawal and no tax is recorded.
\<close>

theorem zero_tax_gross_equals_net:
  assumes "capitalGainsTax params = 0" and "- 100 < annualInflation params"
  shows "grossNeededJ params i (finAccount v) e = Fin (targetNetNominal params i e) \<and>
         targetNetNominalJ params i e = Fin (targetNetNominal params i e) \<and>
         grossNeeded params i v e = targetNetNominal params i e \<and>
         monthTaxPaid (processEvent params i v e) = monthTaxPaid v \<and>
         balance (processEvent params i v e) = balance v - targetNetNominal params i e \<and>
         (\<forall>m\<in>set (scheduleP (runSimulationPeriod sb scb sncb sd smi dur dep params evs)).
            withdrawalGross m = withdrawalNet m \<and> taxPaid m = None)"
proof -
  have "\<forall>m\<in>set (scheduleP (runSimulationPeriod sb scb sncb sd smi dur dep params evs)).
            withdrawalGross m = withdrawalNet m \<and> taxPaid m = None"
    by (rule runSimulationPeriod_records)
       (simp add: handleEvents_net handleEvents_zero_tax [OF assms(1)] depositAndGrow_fields)
  then show ?thesis
    by (simp add: processEvent_fields grossNeeded_zero_tax [OF assms(1)]
          grossNeededJ_zero_tax [OF assms] targetNetNominalJ_Fin [OF assms(2)])
qed

theorem zero_tax_gross_equals_net_witness:
  "capitalGainsTax (zeroRates 0) = 0 \<and> - 100 < annualInflation (zeroRates 0) \<and>
   realProfitRatio (initVars 1500 1000 1000) = 1 / 3 \<and>
   grossNeededJ (zeroRates 0) 0 (finAccount (initVars 1500 1000 1000)) (goalAt 0 500) = Fin 500 \<and>
   grossNeeded (zeroRates 0) 0 (initVars 1500 1000 1000) (goalAt 0 500) = 500 \<and>
   map withdrawalGross
     (scheduleP (runSimulationPeriod 1500 1000 1000 (NewDate ''2024-01-01'') 0 1 0
        (zeroRates 0) (groupByMonth [goalAt 0 500]))) =
   map withdrawalNet
     (scheduleP (runSimulationPeriod 1500 1000 1000 (NewDate ''2024-01-01'') 0 1 0
        (zeroRates 0) (groupByMonth [goalAt 0 500])))"
proof -
  have z: "capitalGainsTax (zeroRates 0) = 0" by simp
  have a: "- 100 < annualInflation (zeroRates 0)" by simp
  note t = zero_tax_gross_equals_net [OF z a, of 0 "initVars 1500 1000 1000" "goalAt 0 500"
      1500 1000 1000 "NewDate ''2024-01-01''" 0 1 0 "groupByMonth [goalAt 0 500]"]
  have r: "realProfitRatio (initVars 1500 1000 1000) = 1 / 3"
    by (simp add: realProfitRatio_def initVars_def)
  have n: "targetNetNominal (zeroRates 0) 0 (goalAt 0 500) = 500"
    by (simp add: targetNetNominal_def)
  have j: "grossNeededJ (zeroRates 0) 0 (finAccount (initVars 1500 1000 1000)) (goalAt 0 500) =
      Fin 500"
    using t unfolding n by blast
  have g: "grossNeeded (zeroRates 0) 0 (initVars 1500 1000 1000) (goalAt 0 500) = 500"
    using t unfolding n by blast
  have "\<forall>m\<in>set (scheduleP (runSimulationPeriod 1500 1000 1000 (NewDate ''2024-01-01'') 0 1 0
        (zeroRates 0) (groupByMonth [goalAt 0 500]))). withdrawalGross m = withdrawalNet m"
    using t by blast
  then have "map withdrawalGross
     (scheduleP (runSimulationPeriod 1500 1000 1000 (NewDate ''2024-01-01'') 0 1 0
        (zeroRates 0) (groupByMonth [goalAt 0 500]))) =
   map withdrawalNet
     (scheduleP (runSimulationPeriod 1500 1000 1000 (NewDate ''2024-01-01'') 0 1 0
        (zeroRates 0) (groupByMonth [goalAt 0 500])))"
    by simp
  with z a r j g show ?thesis by blast
qed

text \<open>
  C7 (counterexample). A tax rate of 0, no growth and an annual inflation rate of -200: the
  monthly inflation rate is \<open>Math.pow(-1, 1 / 12) - 1\<close>, which is NaN. After the first month's
  deposit and indexation, from 1000 with a cost basis of 1000, the balance is 1000 and the
  cost basis is NaN. For a goal of 500 at month 0 the net target is 500 (the factor is
  \<open>Math.pow(NaN, 0)\<close>, which is 1), the profit ratio is NaN, the effective tax rate is
  \<open>NaN * 0\<close> and the gross withdrawal is NaN, not 500.
\<close>

theorem zero_tax_gross_is_NaN_below_minus_100:
  "costBasisJ (depositAndGrowJ deflating 0 (finAccount (initVars 1000 1000 1000))) = NaN \<and>
   balanceJ (depositAndGrowJ deflating 0 (finAccount (initVars 1000 1000 1000))) = Fin 1000 \<and>
   grossNeededJ deflating 0 (depositAndGrowJ deflating 0 (finAccount (initVars 1000 1000 1000)))
     (goalAt 0 500) = NaN \<and>
   targetNetNominalJ deflating 0 (goalAt 0 500) = Fin 500"
  by (simp add: depositAndGrowJ_def finAccount_def initVars_def getMonthlyRateJ_NaN
        getMonthlyRateJ_Fin grossNeededJ_def realProfitRatioJ_def targetNetNominalJ_def
        jgt_def jmax_def jsub_def Let_def)

text \<open>
  C8 (as amended). For a single goal at a fixed month, all other arguments fixed, the
  deposit returned by the solver is monotone in the goal's target amount on the
  non-negative amounts: raising a target amount that is at least 0 never lowers the
  returned deposit.
\<close>

theorem required_deposit_monotone_in_target:
  assumes "monthOffset e1 = monthOffset e2" "0 \<le> targetAmount e1" "targetAmount e1 \<le> targetAmount e2"
  shows "solveRequiredDeposit sb scb sncb sd smi [e1] params \<le>
         solveRequiredDeposit sb scb sncb sd smi [e2] params"
proof -
  let ?f1 = "\<lambda>mid. failed (searchSim sb scb sncb sd smi [e1] params mid)"
  let ?f2 = "\<lambda>mid. failed (searchSim sb scb sncb sd smi [e2] params mid)"
  obtain l1 h1 r1 where s1: "searchDeposit sb scb sncb sd smi [e1] params = (l1, h1, r1)"
    by (metis prod_cases3)
  obtain l2 h2 r2 where s2: "searchDeposit sb scb sncb sd smi [e2] params = (l2, h2, r2)"
    by (metis prod_cases3)
  have "fst (snd (searchLoop ?f1 20 (0, maxDepositCap, maxDepositCap))) \<le>
        fst (snd (searchLoop ?f2 20 (0, maxDepositCap, maxDepositCap)))"
    by (rule searchLoop_mono) (simp_all add: searchSim_failed_mono [OF assms] maxDepositCap_def)
  then have "h1 \<le> h2"
    using s1 s2 by (simp add: searchDeposit_def)
  then have "\<lceil>h1 / 10\<rceil> \<le> \<lceil>h2 / 10\<rceil>" by (simp add: ceiling_mono)
  then have "real_of_int \<lceil>h1 / 10\<rceil> * 10 \<le> real_of_int \<lceil>h2 / 10\<rceil> * 10" by simp
  then show ?thesis
    using solveRequiredDeposit_search(1) [OF _ s1] solveRequiredDeposit_search(1) [OF _ s2]
    by simp
qed


theorem required_deposit_monotone_in_target_witness:
  "monthOffset (goalAt 0 500) = monthOffset (goalAt 0 1000001) \<and>
   0 \<le> targetAmount (goalAt 0 500) \<and>
   targetAmount (goalAt 0 500) \<le> targetAmount (goalAt 0 1000001) \<and>
   solveRequiredDeposit 0 0 0 (NewDate ''2024-01-01'') 0 [goalAt 0 500] (zeroRates 0) \<le> 1000000"
proof -
  have 1: "monthOffset (goalAt 0 500) = monthOffset (goalAt 0 1000001)" by simp
  have 2: "0 \<le> targetAmount (goalAt 0 500)" by simp
  have 3: "targetAmount (goalAt 0 500) \<le> targetAmount (goalAt 0 1000001)" by simp
  from required_deposit_monotone_in_target [OF 1 2 3, of 0 0 0 "NewDate ''2024-01-01''" 0 "zeroRates 0"]
  have "solveRequiredDeposit 0 0 0 (NewDate ''2024-01-01'') 0 [goalAt 0 500] (zeroRates 0) \<le> 1000000"
    by (simp add: huge_goal_solve)
  with 1 2 3 show ?thesis by blast
qed

text \<open>
  C8 (counterexample). The engine validates neither amounts nor rates. With a tax rate of
  200 percent and a real cost basis wiped out by an inflation of -100 percent, the gross
  withdrawal is minus the target: for the target -10000000 every probed deposit fails and
  the solver returns 1000000, for the larger target 1000 no probed deposit fails and it
  returns 10.
\<close>

theorem required_deposit_not_monotone_unvalidated:
  "targetAmount (goalAt 0 (- 10000000)) < targetAmount (goalAt 0 1000) \<and>
   solveRequiredDeposit 0 0 0 (NewDate ''2024-01-01'') 0 [goalAt 0 (- 10000000)] overTaxed = 1000000 \<and>
   solveRequiredDeposit 0 0 0 (NewDate ''2024-01-01'') 0 [goalAt 0 1000] overTaxed = 10"
  by (simp add: overTaxed_refund_solve overTaxed_goal_solve)

text \<open>
  C9. For a non-empty event list with month offsets at least 0, the schedule has one record
  per month from month 0 to the largest month offset, in order: the record at position \<open>i\<close>
  has month index \<open>i\<close>, and there are (largest offset + 1) records.
\<close>

theorem schedule_spans_horizon:
  assumes "events \<noteq> []" and "\<forall>e\<in>set events. 0 \<le> monthOffset e"
  shows "map monthIndex (schedule (calculateSavingsPlan params events)) =
           [0..Max (monthOffset ` set events)] \<and>
         length (schedule (calculateSavingsPlan params events)) =
           nat (Max (monthOffset ` set events) + 1) \<and>
         (\<forall>i < length (schedule (calculateSavingsPlan params events)).
            monthIndex (schedule (calculateSavingsPlan params events) ! i) = int i)"
proof -
  let ?s = "schedule (calculateSavingsPlan params events)"
  let ?M = "Max (monthOffset ` set events)"
  have ne: "sort_key monthOffset events \<noteq> []"
    using assms(1) by (metis length_sort length_0_conv)
  have 1: "map monthIndex ?s = [0..?M]"
    using segmentLoop_monthIndex [OF ne, of params] assms
    by (simp add: calculateSavingsPlan_schedule)
  have 2: "length ?s = nat (?M + 1)"
    using arg_cong [OF 1, of length] by simp
  have 3: "\<forall>i < length ?s. monthIndex (?s ! i) = int i"
  proof (intro allI impI)
    fix i assume i: "i < length ?s"
    then have "monthIndex (?s ! i) = map monthIndex ?s ! i" by simp
    also have "\<dots> = [0..?M] ! i" by (simp only: 1)
    also have "\<dots> = int i" using i 2 by simp
    finally show "monthIndex (?s ! i) = int i" .
  qed
  from 1 2 3 show ?thesis by blast
qed

theorem schedule_spans_horizon_witness:
  "[goalNamed ''b'' 2 200, goalNamed ''a'' 0 100] \<noteq> [] \<and>
   0 \<le> monthOffset (goalNamed ''b'' 2 200) \<and> 0 \<le> monthOffset (goalNamed ''a'' 0 100) \<and>
   map monthIndex (schedule (calculateSavingsPlan (zeroRates 0) [goalNamed ''b'' 2 200, goalNamed ''a'' 0 100])) =
     [0, 1, 2] \<and>
   length (schedule (calculateSavingsPlan (zeroRates 0) [goalNamed ''b'' 2 200, goalNamed ''a'' 0 100])) = 3"
proof -
  have ne: "[goalNamed ''b'' 2 200, goalNamed ''a'' 0 100] \<noteq> []" by simp
  have nn: "\<forall>e\<in>set [goalNamed ''b'' 2 200, goalNamed ''a'' 0 100]. 0 \<le> monthOffset e" by simp
  have u: "[0..2::int] = [0, 1, 2]" by (simp add: upto.simps)
  show ?thesis
    using schedule_spans_horizon [OF ne nn, of "zeroRates 0"] by (simp add: u)
qed

text \<open>
  C10. A call of \<open>calculateSavingsPlan\<close> on a store, with references to a parameter object
  and to an array of event objects, returns the plan of the values read and leaves the
  caller's objects as they were: the events array holds the same references in the same
  order, the event objects and the parameter objects are unchanged, and so is every array
  that existed before the call. The sorted copy is a newly allocated array.
\<close>

theorem calculateSavingsPlan_leaves_inputs_unchanged:
  assumes "\<forall>a. nextAddr h \<le> a \<longrightarrow> arrays h a = None"
    and "paramObjs h paramsRef = Some params"
    and "arrays h eventsRef = Some refs"
    and "derefEvents h refs = Some events"
  shows "case calculateSavingsPlanH paramsRef eventsRef h of
           None \<Rightarrow> False
         | Some (result, h') \<Rightarrow>
             result = calculateSavingsPlan params events \<and>
             arrays h' eventsRef = Some refs \<and>
             derefEvents h' refs = Some events \<and>
             paramObjs h' paramsRef = Some params \<and>
             eventObjs h' = eventObjs h \<and> paramObjs h' = paramObjs h \<and>
             (\<forall>a. arrays h a \<noteq> None \<longrightarrow> arrays h' a = arrays h a)"
proof -
  have n: "arrays h a \<noteq> None \<Longrightarrow> a \<noteq> nextAddr h" for a
    using assms(1) by auto
  have "eventsRef \<noteq> nextAddr h" using n [of eventsRef] assms(3) by simp
  then show ?thesis
    using assms(2-4) n
    by (simp add: calculateSavingsPlanH_run [OF assms] derefEvents_def)
qed

theorem calculateSavingsPlan_leaves_inputs_unchanged_witness:
  "paramObjs exampleStore 3 = Some (zeroRates 0) \<and>
   arrays exampleStore 0 = Some [2, 1] \<and>
   derefEvents exampleStore [2, 1] = Some [goalNamed ''b'' 2 200, goalNamed ''a'' 0 100] \<and>
   arrays (snd (the (calculateSavingsPlanH 3 0 exampleStore))) 0 = Some [2, 1] \<and>
   fst (the (calculateSavingsPlanH 3 0 exampleStore)) =
     calculateSavingsPlan (zeroRates 0) [goalNamed ''b'' 2 200, goalNamed ''a'' 0 100]"
proof -
  have wf: "\<forall>a. nextAddr exampleStore \<le> a \<longrightarrow> arrays exampleStore a = None"
    by (simp add: exampleStore_simps)
  have p: "paramObjs exampleStore 3 = Some (zeroRates 0)" by (simp add: exampleStore_simps)
  have a: "arrays exampleStore 0 = Some [2, 1]" by (simp add: exampleStore_simps)
  have e: "derefEvents exampleStore [2, 1] = Some [goalNamed ''b'' 2 200, goalNamed ''a'' 0 100]"
    by (simp add: derefEvents_def exampleStore_simps)
  from calculateSavingsPlan_leaves_inputs_unchanged [OF wf p a e]
  have "arrays (snd (the (calculateSavingsPlanH 3 0 exampleStore))) 0 = Some [2, 1] \<and>
   fst (the (calculateSavingsPlanH 3 0 exampleStore)) =
     calculateSavingsPlan (zeroRates 0) [goalNamed ''b'' 2 200, goalNamed ''a'' 0 100]"
    by (auto split: option.splits)
  with p a e show ?thesis by blast
qed

end
